theory Spec2Isabelle
  imports Main
begin

section \<open>The outside world\<close>

text \<open>
  The orchestrator talks to collaborators it does not own: the network, a database
  handle, a cache handle, sub-services, the logger and the operating system. Every call
  to one of them is recorded in the world, in program order, and the answer of a
  collaborator is a function of the instant of the call, the number of external calls
  made before it. A collaborator may so answer differently each time it is asked.
\<close>

type_synonym address = string

datatype error =
    ErrTermSig
  | Canceled
  | DeadlineExceeded
  | ErrorString string

text \<open>The method \<open>Error()\<close> of an error value: its message.\<close>

fun Error :: "error \<Rightarrow> string" where
  "Error ErrTermSig = ''termination signal caught''"
| "Error Canceled = ''context canceled''"
| "Error DeadlineExceeded = ''context deadline exceeded''"
| "Error (ErrorString m) = m"

datatype call =
    NetDialTimeout address
  | ConnClose address
  | GrpcDialContext address
  | GrpcConnClose address
  | DBPing
  | DBClose
  | RedisPing
  | RedisClose
  | SubReady string
  | SubClose string
  | GracefulStop address
  | HTTPShutdown address
  | OsExit int

datatype level = Debug | Info | ErrorLevel

text \<open>A value held by an \<open>atomic.Value\<close>: nothing yet, or a boolean.\<close>

datatype any = Nil | Bool bool

record world =
  calls :: "call list"
  logs :: "(level \<times> string) list"
  atomics :: "nat \<Rightarrow> any"
  allocated :: nat
  exited :: "int option"

definition now :: "world \<Rightarrow> nat" where
  "now w = length (calls w)"

definition tick :: "call \<Rightarrow> world \<Rightarrow> world" where
  "tick c w = w\<lparr>calls := calls w @ [c]\<rparr>"

text \<open>
  A log line is recorded with its level and its message or format string; the rendering
  of format arguments is not modelled.
\<close>

definition logf :: "level \<Rightarrow> string \<Rightarrow> world \<Rightarrow> world" where
  "logf l m w = w\<lparr>logs := logs w @ [(l, m)]\<rparr>"

text \<open>
  The network: \<open>net.DialTimeout("tcp", addr, 1s)\<close>, \<open>grpc.DialContext\<close> and
  \<open>http.Server.Shutdown\<close>, each answering \<open>None\<close> for a nil error.
\<close>

record env =
  net_DialTimeout :: "address \<Rightarrow> nat \<Rightarrow> error option"
  grpc_DialContext :: "address \<Rightarrow> nat \<Rightarrow> error option"
  http_Shutdown :: "address \<Rightarrow> nat \<Rightarrow> error option"

section \<open>The data model\<close>

text \<open>The interfaces \<open>DB\<close>, \<open>Redis\<close> and \<open>SubService\<close>: records of their methods.\<close>

record DB =
  db_Ping :: "nat \<Rightarrow> error option"
  db_Close :: "nat \<Rightarrow> error option"

record Redis =
  redis_Ping :: "nat \<Rightarrow> string \<times> error option"
  redis_Close :: "nat \<Rightarrow> error option"

record SubService =
  sub_Ready :: "nat \<Rightarrow> bool"
  sub_Name :: string
  sub_Close :: "nat \<Rightarrow> error option"

record GRPCServer =
  address :: address

text \<open>
  The handler of an HTTP listener: the router built by \<open>TechHTTPServerOption.Apply\<close>,
  which holds the pointer to the readiness flag it was given, or any other handler.
\<close>

datatype handler = TechRouter "nat option" | OtherHandler

record http_Server =
  Addr :: address
  Handler :: handler

text \<open>
  A context: the instant at which its \<open>Done\<close> channel is closed, if ever, and the value
  of \<open>Err()\<close> from then on.
\<close>

record Context =
  Done :: "nat option"
  Err :: error

text \<open>
  A signal trap is a channel of signals: the nil channel, or a channel with the instant
  at which the first signal is delivered to it, if ever.
\<close>

datatype SignalTrap = NilTrap | Trap "nat option"

text \<open>
  The orchestrator. \<open>SubServices\<close> is a Go map: its entries are listed here in the order
  in which an iteration visits them, which Go leaves unspecified. \<open>isReady\<close> is the
  pointer to the readiness flag, a cell of \<open>atomics\<close>. The error channel \<open>ErrChan\<close> is
  only written by the serving tasks and is left out.
\<close>

record Service =
  Name :: string
  ctx :: Context
  GRPCServers :: "GRPCServer list"
  HTTPServers :: "http_Server list"
  DB :: "DB option"
  Redis :: "Redis option"
  isReady :: "nat option"
  SubServices :: "(string \<times> SubService) list"
  sigHandler :: SignalTrap

section \<open>Reachability checks\<close>

text \<open>
  \<open>checkHTTPServerUp\<close>: the loop \<open>for err != nil\<close> around \<open>net.DialTimeout\<close>. It starts
  with a non-nil error, so the first dial is always made; it has no counter and no
  deadline, so it may run forever, which is the value \<open>None\<close>.
\<close>

partial_function (option) checkHTTPServerUp_loop ::
  "env \<Rightarrow> address \<Rightarrow> error option \<Rightarrow> world \<Rightarrow> world option" where
  "checkHTTPServerUp_loop e a err w =
     (case err of
        None \<Rightarrow> Some w
      | Some _ \<Rightarrow>
          (case net_DialTimeout e a (now w) of
             None \<Rightarrow> checkHTTPServerUp_loop e a None (tick (NetDialTimeout a) w)
           | Some err' \<Rightarrow>
               checkHTTPServerUp_loop e a (Some err')
                 (logf Debug (Error err') (tick (NetDialTimeout a) w))))"

definition checkHTTPServerUp :: "env \<Rightarrow> http_Server \<Rightarrow> world \<Rightarrow> (bool \<times> world) option" where
  "checkHTTPServerUp e httpServer w =
     (case checkHTTPServerUp_loop e (Addr httpServer)
             (Some (ErrorString ''http server not ready'')) w of
        None \<Rightarrow> None
      | Some w' \<Rightarrow>
          Some (True, tick (ConnClose (Addr httpServer)) (logf Debug ''http server ready'' w')))"

text \<open>
  \<open>checkGRPCServerUp\<close>: one dial per configured listener, stopping with false at the first
  failed dial. \<open>conn\<close> is the connection of the last dial (nil after a failed one); the
  deferred function closes it. The dial is assumed to return.
\<close>

fun checkGRPCServerUp_loop ::
  "env \<Rightarrow> GRPCServer list \<Rightarrow> address option \<Rightarrow> world \<Rightarrow> bool \<times> address option \<times> world" where
  "checkGRPCServerUp_loop e [] conn w = (True, conn, w)"
| "checkGRPCServerUp_loop e (server # rest) conn w =
     (case grpc_DialContext e (address server) (now w) of
        Some err \<Rightarrow>
          (False, None, logf Debug (Error err) (tick (GrpcDialContext (address server)) w))
      | None \<Rightarrow>
          checkGRPCServerUp_loop e rest (Some (address server))
            (logf Debug ''grpc server ready %s'' (tick (GrpcDialContext (address server)) w)))"

definition checkGRPCServerUp :: "env \<Rightarrow> Service \<Rightarrow> world \<Rightarrow> bool \<times> world" where
  "checkGRPCServerUp e s w =
     (case checkGRPCServerUp_loop e (GRPCServers s) None w of
        (up, conn, w') \<Rightarrow>
          (up, case conn of None \<Rightarrow> w' | Some a \<Rightarrow> tick (GrpcConnClose a) w'))"

text \<open>
  \<open>checkDBAlive\<close> and \<open>checkRedisAlive\<close> are only called when the handle is not nil; the
  model takes the handle.
\<close>

definition checkDBAlive :: "DB \<Rightarrow> world \<Rightarrow> bool \<times> world" where
  "checkDBAlive db w =
     (let err = db_Ping db (now w);
          w1 = tick DBPing w;
          w2 = (if err \<noteq> None then logf Debug ''db is not ready'' w1 else w1);
          isReady = (err = None);
          w3 = (if isReady then logf Debug ''db is ready'' w2 else w2)
      in (isReady, w3))"

definition checkRedisAlive :: "Redis \<Rightarrow> world \<Rightarrow> bool \<times> world" where
  "checkRedisAlive r w =
     (case redis_Ping r (now w) of
        (pong, err) \<Rightarrow>
          (let w1 = tick RedisPing w;
               w2 = (if err \<noteq> None then logf Debug ''redis is not ready'' w1 else w1);
               isReady = (pong = ''PONG'');
               w3 = (if isReady then logf Debug ''redis is ready'' w2 else w2)
           in (isReady, w3)))"

section \<open>Liveness and readiness\<close>

text \<open>
  The loop over \<open>s.HTTPServers\<close>, the same in \<open>IsAlive\<close> and in \<open>Ready\<close>: the flag starts true
  and is cleared by a check that returns false.
\<close>

fun range_HTTPServers ::
  "env \<Rightarrow> http_Server list \<Rightarrow> bool \<Rightarrow> world \<Rightarrow> (bool \<times> world) option" where
  "range_HTTPServers e [] areUp w = Some (areUp, w)"
| "range_HTTPServers e (httpServer # rest) areUp w =
     (case checkHTTPServerUp e httpServer w of
        None \<Rightarrow> None
      | Some (up, w') \<Rightarrow> range_HTTPServers e rest (if \<not> up then False else areUp) w')"

text \<open>
  \<open>s.GRPCServers != nil\<close>: a nil slice is the empty list. (On a slice that is empty but
  not nil the check would run and return true without a call or a log line.)
\<close>

definition IsAlive :: "env \<Rightarrow> Service \<Rightarrow> world \<Rightarrow> (bool \<times> world) option" where
  "IsAlive e s w =
     (let (isGrpcAlive, w1) =
            (if GRPCServers s \<noteq> [] then
               (case checkGRPCServerUp e s w of
                  (up, w') \<Rightarrow> (up, if \<not> up then logf Debug ''grpc servers not ready'' w' else w'))
             else (True, w))
      in case range_HTTPServers e (HTTPServers s) True w1 of
           None \<Rightarrow> None
         | Some (areHTTPServersAlive, w2) \<Rightarrow>
             (let (isDBAlive, w3) =
                    (case DB s of
                       None \<Rightarrow> (True, w2)
                     | Some db \<Rightarrow>
                         (case checkDBAlive db w2 of (up, w') \<Rightarrow> (if \<not> up then False else True, w')));
                  (isRedisAlive, w4) =
                    (case Redis s of
                       None \<Rightarrow> (True, w3)
                     | Some r \<Rightarrow>
                         (case checkRedisAlive r w3 of (up, w') \<Rightarrow> (if \<not> up then False else True, w')))
              in Some (isGrpcAlive \<and> areHTTPServersAlive \<and> isDBAlive \<and> isRedisAlive, w4)))"

text \<open>The operations of \<open>atomic.Value\<close> on a cell.\<close>

definition Store :: "nat \<Rightarrow> any \<Rightarrow> world \<Rightarrow> world" where
  "Store r v w = w\<lparr>atomics := (atomics w)(r := v)\<rparr>"

definition Load :: "nat \<Rightarrow> world \<Rightarrow> any" where
  "Load r w = atomics w r"

definition Swap :: "nat \<Rightarrow> any \<Rightarrow> world \<Rightarrow> any \<times> world" where
  "Swap r v w = (atomics w r, w\<lparr>atomics := (atomics w)(r := v)\<rparr>)"

text \<open>A call that returns, or panics (a nil pointer, a failed type assertion).\<close>

datatype 'a outcome = Panics | Returns 'a

text \<open>The loop of \<open>Ready\<close> over the sub-services; every sub-service is asked.\<close>

fun range_SubServices :: "(string \<times> SubService) list \<Rightarrow> bool \<Rightarrow> world \<Rightarrow> bool \<times> world" where
  "range_SubServices [] areReady w = (areReady, w)"
| "range_SubServices ((key, subService) # rest) areReady w =
     (let r = sub_Ready subService (now w);
          w1 = tick (SubReady (sub_Name subService)) w;
          (areReady', w2) =
            (if \<not> r then (False, logf ErrorLevel ''subservice not ready subservice %s'' w1)
             else (areReady, w1));
          w3 = logf Info ''subservice is ready subservice %s'' w2
      in range_SubServices rest areReady' w3)"

text \<open>
  \<open>Ready\<close>: the readiness evaluation. It ends by swapping the result into the readiness
  flag; with a nil \<open>isReady\<close> that call panics.
\<close>

definition Ready :: "env \<Rightarrow> Service \<Rightarrow> world \<Rightarrow> world outcome option" where
  "Ready e s w =
     (let (areSubServicesReady, w0) = range_SubServices (SubServices s) True w;
          (isGRPCReady, w1) =
            (if GRPCServers s \<noteq> [] then
               (case checkGRPCServerUp e s w0 of
                  (up, w') \<Rightarrow> (up, if \<not> up then logf ErrorLevel ''grpc server not ready'' w' else w'))
             else (True, w0))
      in case range_HTTPServers e (HTTPServers s) True w1 of
           None \<Rightarrow> None
         | Some (areHTTPServersReady, w2) \<Rightarrow>
             (let (isDBReady, w3) =
                    (case DB s of
                       None \<Rightarrow> (True, w2)
                     | Some db \<Rightarrow>
                         (case checkDBAlive db w2 of (up, w') \<Rightarrow> (if \<not> up then False else True, w')));
                  (isRedisAlive, w4) =
                    (case Redis s of
                       None \<Rightarrow> (True, w3)
                     | Some r \<Rightarrow>
                         (case checkRedisAlive r w3 of (up, w') \<Rightarrow> (if \<not> up then False else True, w')))
              in case isReady s of
                   None \<Rightarrow> Some Panics
                 | Some p \<Rightarrow>
                     Some (Returns (snd (Swap p
                       (Bool (areSubServicesReady \<and> isGRPCReady \<and> areHTTPServersReady
                              \<and> isDBReady \<and> isRedisAlive)) w4)))))"

section \<open>The status endpoints\<close>

text \<open>
  An \<open>http.ResponseWriter\<close>: the header map, the status line once written, the body
  written so far, and whether the connection is broken, in which case \<open>Write\<close> fails.
\<close>

record ResponseWriter =
  headers :: "(string \<times> string) list"
  status :: "int option"
  body :: string
  broken :: bool

definition Header_Set :: "string \<Rightarrow> string \<Rightarrow> ResponseWriter \<Rightarrow> ResponseWriter" where
  "Header_Set k v rw = rw\<lparr>headers := (k, v) # filter (\<lambda>kv. fst kv \<noteq> k) (headers rw)\<rparr>"

definition Header_Del :: "string \<Rightarrow> ResponseWriter \<Rightarrow> ResponseWriter" where
  "Header_Del k rw = rw\<lparr>headers := filter (\<lambda>kv. fst kv \<noteq> k) (headers rw)\<rparr>"

text \<open>Only the first \<open>WriteHeader\<close> sets the status line; \<open>Write\<close> sets 200 if none was set.\<close>

definition WriteHeader :: "int \<Rightarrow> ResponseWriter \<Rightarrow> ResponseWriter" where
  "WriteHeader code rw = (if status rw = None then rw\<lparr>status := Some code\<rparr> else rw)"

definition Write :: "string \<Rightarrow> ResponseWriter \<Rightarrow> ResponseWriter \<times> error option" where
  "Write bytes rw =
     (let rw1 = WriteHeader 200 rw
      in if broken rw1 then (rw1, Some (ErrorString ''write: broken pipe''))
         else (rw1\<lparr>body := body rw1 @ bytes\<rparr>, None))"

definition http_Error :: "ResponseWriter \<Rightarrow> string \<Rightarrow> int \<Rightarrow> ResponseWriter" where
  "http_Error rw msg code =
     fst (Write (msg @ [CHR 0x0A])
       (WriteHeader code
         (Header_Set ''X-Content-Type-Options'' ''nosniff''
           (Header_Set ''Content-Type'' ''text/plain; charset=utf-8''
             (Header_Del ''Content-Length'' rw)))))"

record errorResponse =
  ErrorCode :: int
  ErrorDetails :: string

text \<open>
  \<open>json.Marshal\<close> on an \<open>errorResponse\<close>: an object of the two exported fields in
  declaration order, the integer in decimal, the string quoted with \<open>"\<close> and \<open>\\<close>
  escaped (the other escapes of the encoder are left out). It returns no error on this
  type.
\<close>

function decimal :: "nat \<Rightarrow> string" where
  "decimal n =
     (if n < 10 then [''0123456789'' ! n]
      else decimal (n div 10) @ [''0123456789'' ! (n mod 10)])"
  by pat_completeness auto
termination
  by (relation "measure id") auto

declare decimal.simps [simp del]

definition itoa :: "int \<Rightarrow> string" where
  "itoa i = (if i < 0 then CHR ''-'' # decimal (nat (- i)) else decimal (nat i))"

definition json_string :: "string \<Rightarrow> string" where
  "json_string s =
     [CHR 0x22] @
     concat (map (\<lambda>c. if c = CHR 0x22 \<or> c = CHR 0x5C then [CHR 0x5C, c] else [c]) s) @
     [CHR 0x22]"

definition json_Marshal :: "errorResponse \<Rightarrow> error + string" where
  "json_Marshal r =
     Inr (''{'' @ json_string ''ErrorCode'' @ '':'' @ itoa (ErrorCode r) @ '','' @
          json_string ''ErrorDetails'' @ '':'' @ json_string (ErrorDetails r) @ ''}'')"

definition AnswerWithJSONError :: "ResponseWriter \<Rightarrow> int \<Rightarrow> ResponseWriter" where
  "AnswerWithJSONError rw code =
     (case json_Marshal \<lparr>ErrorCode = code, ErrorDetails = ''error during request processing''\<rparr> of
        Inl err \<Rightarrow> http_Error rw ''failed to marshal error response'' 500
      | Inr jsonResponse \<Rightarrow>
          (case Write jsonResponse (WriteHeader code (Header_Set ''Content-Type'' ''application/json'' rw)) of
             (rw', Some err) \<Rightarrow> http_Error rw' ''failed to write error response to writer'' 500
           | (rw', None) \<Rightarrow> rw'))"

text \<open>A \<open>Checker\<close> is a function without arguments that returns a boolean, if it returns.\<close>

type_synonym Checker = "world \<Rightarrow> (bool \<times> world) option"

text \<open>The handler of \<open>/health/live\<close>: the checkers in order, up to the first that is false.\<close>

fun alive :: "Checker list \<Rightarrow> ResponseWriter \<Rightarrow> world \<Rightarrow> (ResponseWriter \<times> world) option" where
  "alive [] rw w = Some (WriteHeader 200 rw, w)"
| "alive (isAlive # rest) rw w =
     (case isAlive w of
        None \<Rightarrow> None
      | Some (up, w') \<Rightarrow>
          if \<not> up then Some (AnswerWithJSONError rw 503, w') else alive rest rw w')"

text \<open>
  The handler of \<open>/ready\<close> and \<open>/health/ready\<close>: a nil pointer and a flag that holds false
  answer 503; the type assertion \<open>.(bool)\<close> panics on a flag that holds nothing.
\<close>

fun ready :: "nat option list \<Rightarrow> ResponseWriter \<Rightarrow> world \<Rightarrow> ResponseWriter outcome" where
  "ready [] rw w = Returns (WriteHeader 200 rw)"
| "ready (isReady' # rest) rw w =
     (case isReady' of
        None \<Rightarrow> Returns (AnswerWithJSONError rw 503)
      | Some p \<Rightarrow>
          (case Load p w of
             Nil \<Rightarrow> Panics
           | Bool b \<Rightarrow> if \<not> b then Returns (AnswerWithJSONError rw 503) else ready rest rw w))"

text \<open>
  The routes that \<open>TechHTTPServerOption.Apply\<close> registers for the status reporters, with
  the handlers it builds: \<open>NewReadinessHandler(s.isReady)\<close> holds the pointer,
  \<open>NewHealthHandler(s.IsAlive)\<close> the method of the orchestrator, which reads the
  orchestrator as it is when the request is served.
\<close>

datatype route = HealthLive | ReadyRoute | HealthReady

fun path :: "route \<Rightarrow> string" where
  "path HealthLive = ''/health/live''"
| "path ReadyRoute = ''/ready''"
| "path HealthReady = ''/health/ready''"

fun ServeHTTP ::
  "env \<Rightarrow> Service \<Rightarrow> nat option \<Rightarrow> route \<Rightarrow> ResponseWriter \<Rightarrow> world
   \<Rightarrow> (ResponseWriter \<times> world) outcome option" where
  "ServeHTTP e s p HealthLive rw w = map_option Returns (alive [IsAlive e s] rw w)"
| "ServeHTTP e s p ReadyRoute rw w =
     Some (case ready [p] rw w of Panics \<Rightarrow> Panics | Returns rw' \<Rightarrow> Returns (rw', w))"
| "ServeHTTP e s p HealthReady rw w =
     Some (case ready [p] rw w of Panics \<Rightarrow> Panics | Returns rw' \<Rightarrow> Returns (rw', w))"

section \<open>Construction\<close>

text \<open>
  An \<open>Option\<close> is an interface: the four options of the package, or an option of the
  caller, which gets the pointer to the orchestrator and may return an error.
\<close>

datatype Option =
    GRPCServerOption address
  | TechHTTPServerOption address
  | DBOption "DB option"
  | RedisOption "Redis option"
  | OtherOption "Service \<Rightarrow> Service \<times> error option"

definition WithGRPCServer :: "address \<Rightarrow> Option" where
  "WithGRPCServer a = GRPCServerOption a"

definition WithTechHTTPServerOption :: "address \<Rightarrow> Option" where
  "WithTechHTTPServerOption a = TechHTTPServerOption a"

definition WithDB :: "DB option \<Rightarrow> Option" where
  "WithDB db = DBOption db"

definition WithRedis :: "Redis option \<Rightarrow> Option" where
  "WithRedis r = RedisOption r"

text \<open>
  \<open>Apply\<close> mutates the orchestrator in place and returns an error or nil. An option from
  outside the package cannot reach the unexported fields \<open>isReady\<close> and \<open>sigHandler\<close>.
\<close>

fun Apply :: "Option \<Rightarrow> Service \<Rightarrow> Service \<times> error option" where
  "Apply (GRPCServerOption a) s = (s\<lparr>GRPCServers := GRPCServers s @ [\<lparr>address = a\<rparr>]\<rparr>, None)"
| "Apply (TechHTTPServerOption a) s =
     (s\<lparr>HTTPServers := HTTPServers s @ [\<lparr>Addr = a, Handler = TechRouter (isReady s)\<rparr>]\<rparr>, None)"
| "Apply (DBOption db) s = (s\<lparr>DB := db\<rparr>, None)"
| "Apply (RedisOption r) s = (s\<lparr>Redis := r\<rparr>, None)"
| "Apply (OtherOption f) s =
     (case f s of (s', err) \<Rightarrow> (s'\<lparr>isReady := isReady s, sigHandler := sigHandler s\<rparr>, err))"

text \<open>The loop of \<open>New\<close> over the options: \<open>Inl\<close> is the return of \<open>nil, err\<close>.\<close>

fun range_options :: "Option list \<Rightarrow> Service \<Rightarrow> error + Service" where
  "range_options [] s = Inr s"
| "range_options (opt # rest) s =
     (case Apply opt s of
        (s', Some err) \<Rightarrow> Inl err
      | (s', None) \<Rightarrow> range_options rest s')"

definition New :: "Context \<Rightarrow> string \<Rightarrow> Option list \<Rightarrow> world \<Rightarrow> (error + Service) \<times> world" where
  "New c name options w =
     (let p = allocated w;
          w1 = Store p (Bool False) (w\<lparr>allocated := Suc p\<rparr>);
          s = \<lparr>Name = name, ctx = c, GRPCServers = [], HTTPServers = [], DB = None,
               Redis = None, isReady = Some p, SubServices = [], sigHandler = NilTrap\<rparr>
      in (range_options options s, w1))"

definition GetContext :: "Service \<Rightarrow> Context" where
  "GetContext s = ctx s"

definition SetContext :: "Context \<Rightarrow> Service \<Rightarrow> Service" where
  "SetContext c s = s\<lparr>ctx := c\<rparr>"

definition AddHTTPServer :: "http_Server \<Rightarrow> Service \<Rightarrow> Service" where
  "AddHTTPServer httpServer s = s\<lparr>HTTPServers := HTTPServers s @ [httpServer]\<rparr>"

section \<open>The signal trap\<close>

text \<open>
  \<open>TermSignalTrap\<close> makes a channel and registers it for SIGINT and SIGTERM; the argument
  is the instant at which the first of them arrives, if ever.
\<close>

definition TermSignalTrap :: "nat option \<Rightarrow> SignalTrap" where
  "TermSignalTrap arrival = Trap arrival"

text \<open>
  \<open>Wait\<close> is one \<open>select\<close> over the trap and \<open>ctx.Done()\<close>, entered at instant \<open>t\<close>. A
  receive from the nil channel never proceeds. A case can proceed from the instant of its
  event, or from \<open>t\<close> when the event is older; the case that can proceed first is taken,
  and when both can proceed at the same instant the runtime picks one, which is the
  argument \<open>pick\<close>. \<open>None\<close> is a select that blocks forever.
\<close>

definition Wait :: "SignalTrap \<Rightarrow> Context \<Rightarrow> nat \<Rightarrow> bool \<Rightarrow> error option" where
  "Wait trap c t pick =
     (let signal = (case trap of NilTrap \<Rightarrow> None | Trap arrival \<Rightarrow> map_option (max t) arrival);
          done = map_option (max t) (Done c)
      in case (signal, done) of
           (None, None) \<Rightarrow> None
         | (Some a, None) \<Rightarrow> Some ErrTermSig
         | (None, Some d) \<Rightarrow> Some (Err c)
         | (Some a, Some d) \<Rightarrow>
             if a < d then Some ErrTermSig
             else if d < a then Some (Err c)
             else if pick then Some ErrTermSig else Some (Err c))"

text \<open>\<open>errors.Is\<close> on the errors of this program, none of which wraps another.\<close>

definition errors_Is :: "error \<Rightarrow> error \<Rightarrow> bool" where
  "errors_Is err target = (err = target)"

section \<open>Start and Stop\<close>

text \<open>
  The tasks that \<open>Start\<close> spawns with \<open>go\<close>: one per HTTP listener, one per gRPC listener,
  and \<open>go s.Ready()\<close>.
\<close>

datatype task = ServeTask address | ServeGRPCTask address | ReadyTask

text \<open>
  \<open>Start\<close> returns the tasks it has spawned and, when \<open>Wait\<close> returns, the error it returns
  to its caller (\<open>None\<close> for nil). The error that \<open>Wait\<close> returns is never nil.
\<close>

definition Start ::
  "Service \<Rightarrow> nat \<Rightarrow> bool \<Rightarrow> world \<Rightarrow> task list \<times> (error option \<times> world) option" where
  "Start s t pick w =
     (map (\<lambda>httpServ. ServeTask (Addr httpServ)) (HTTPServers s) @
      map (\<lambda>grpcServer. ServeGRPCTask (address grpcServer)) (GRPCServers s) @
      [ReadyTask],
      case Wait (sigHandler s) (GetContext s) t pick of
        None \<Rightarrow> None
      | Some err \<Rightarrow>
          if \<not> errors_Is err ErrTermSig
          then Some (Some err, logf ErrorLevel ''failed to caught signal'' w)
          else Some (None, logf Info ''termination signal received'' w))"

text \<open>The loops of \<open>Stop\<close>. The calls to the collaborators are assumed to return.\<close>

fun range_SubServices_Close :: "(string \<times> SubService) list \<Rightarrow> world \<Rightarrow> world" where
  "range_SubServices_Close [] w = w"
| "range_SubServices_Close ((key, service) # rest) w =
     (let err = sub_Close service (now w);
          w1 = tick (SubClose (sub_Name service)) w;
          w2 = (if err \<noteq> None then logf ErrorLevel ''failed to stop service service %s'' w1 else w1);
          w3 = logf Debug ''subservice stopped subservice %s'' w2
      in range_SubServices_Close rest w3)"

fun range_GRPCServers_GracefulStop :: "GRPCServer list \<Rightarrow> world \<Rightarrow> world" where
  "range_GRPCServers_GracefulStop [] w = w"
| "range_GRPCServers_GracefulStop (grpcServer # rest) w =
     range_GRPCServers_GracefulStop rest
       (logf Debug ''grpc server stopped'' (tick (GracefulStop (address grpcServer)) w))"

fun range_HTTPServers_Shutdown :: "env \<Rightarrow> http_Server list \<Rightarrow> world \<Rightarrow> world" where
  "range_HTTPServers_Shutdown e [] w = w"
| "range_HTTPServers_Shutdown e (httpServer # rest) w =
     (let err = http_Shutdown e (Addr httpServer) (now w);
          w1 = tick (HTTPShutdown (Addr httpServer)) w;
          w2 = (if err \<noteq> None then logf ErrorLevel ''failed to shutdown http server %s'' w1 else w1);
          w3 = logf Debug ''http server stopped'' w2
      in range_HTTPServers_Shutdown e rest w3)"

definition os_Exit :: "int \<Rightarrow> world \<Rightarrow> world" where
  "os_Exit code w = (tick (OsExit code) w)\<lparr>exited := Some code\<rparr>"

definition Stop :: "env \<Rightarrow> Service \<Rightarrow> world \<Rightarrow> world" where
  "Stop e s w =
     (let w1 = range_SubServices_Close (SubServices s) w;
          w2 = range_GRPCServers_GracefulStop (GRPCServers s) w1;
          w3 = range_HTTPServers_Shutdown e (HTTPServers s) w2;
          w4 = (case DB s of
                  None \<Rightarrow> w3
                | Some db \<Rightarrow>
                    (let err = db_Close db (now w3);
                         w' = tick DBClose w3;
                         w'' = (if err \<noteq> None
                                then logf ErrorLevel ''failed to close connection to db'' w' else w')
                     in logf Debug ''db stopped'' w''));
          w5 = (case Redis s of
                  None \<Rightarrow> w4
                | Some r \<Rightarrow>
                    (let err = redis_Close r (now w4);
                         w' = tick RedisClose w4;
                         w'' = (if err \<noteq> None
                                then logf ErrorLevel ''failed to close connection to redis'' w' else w')
                     in logf Debug ''redis stopped'' w''))
      in os_Exit 1 w5)"

section \<open>Example worlds\<close>

text \<open>
  The world before any call, a network on which no TCP dial is ever accepted, and a
  network on which TCP dials are refused before instant \<open>n\<close> and accepted from then on.
\<close>

definition world0 :: world where
  "world0 = \<lparr>calls = [], logs = [], atomics = (\<lambda>_. Nil), allocated = 0, exited = None\<rparr>"

definition env_refusing :: env where
  "env_refusing = \<lparr>net_DialTimeout = (\<lambda>a t. Some (ErrorString ''connection refused'')),
                   grpc_DialContext = (\<lambda>a t. None), http_Shutdown = (\<lambda>a t. None)\<rparr>"

definition env_up_from :: "nat \<Rightarrow> env" where
  "env_up_from n = \<lparr>net_DialTimeout = (\<lambda>a t. if t < n then Some (ErrorString ''connection refused'') else None),
                   grpc_DialContext = (\<lambda>a t. None), http_Shutdown = (\<lambda>a t. None)\<rparr>"

text \<open>\<open>context.Background()\<close> is never done.\<close>

definition Background :: Context where
  "Background = \<lparr>Done = None, Err = Canceled\<rparr>"


text \<open>The options that the package itself provides.\<close>

fun recognized :: "Option \<Rightarrow> bool" where
  "recognized (OtherOption f) = False"
| "recognized opt = True"

text \<open>A response writer on which nothing has been written.\<close>

definition NewRecorder :: ResponseWriter where
  "NewRecorder = \<lparr>headers = [], status = None, body = [], broken = False\<rparr>"

section \<open>The sub-conditions, named\<close>

text \<open>
  The sub-conditions that \<open>IsAlive\<close> and \<open>Ready\<close> compute one after the other, each with the
  world it leaves: the gRPC check behind its guard, with the level and the text of the log
  line of the caller, and the two dependency checks behind theirs.
\<close>

definition grpc_condition :: "level \<Rightarrow> string \<Rightarrow> env \<Rightarrow> Service \<Rightarrow> world \<Rightarrow> bool \<times> world" where
  "grpc_condition l m e s w =
     (if GRPCServers s \<noteq> [] then
        (case checkGRPCServerUp e s w of (up, w') \<Rightarrow> (up, if \<not> up then logf l m w' else w'))
      else (True, w))"

definition db_condition :: "Service \<Rightarrow> world \<Rightarrow> bool \<times> world" where
  "db_condition s w = (case DB s of None \<Rightarrow> (True, w) | Some db \<Rightarrow> checkDBAlive db w)"

definition redis_condition :: "Service \<Rightarrow> world \<Rightarrow> bool \<times> world" where
  "redis_condition s w = (case Redis s of None \<Rightarrow> (True, w) | Some r \<Rightarrow> checkRedisAlive r w)"

section \<open>The conditions of the specification\<close>

text \<open>
  The conditions that the specification names, each at an instant \<open>t\<close>: every gRPC
  listener reachable, every HTTP listener reachable, the database answering a ping, the
  cache answering a ping with the canonical reply, every sub-service ready. A dependency
  that is not attached satisfies its condition.
\<close>

definition grpc_reachable :: "env \<Rightarrow> Service \<Rightarrow> nat \<Rightarrow> bool" where
  "grpc_reachable e s t = (\<forall>g\<in>set (GRPCServers s). grpc_DialContext e (address g) t = None)"

definition http_reachable :: "env \<Rightarrow> Service \<Rightarrow> nat \<Rightarrow> bool" where
  "http_reachable e s t = (\<forall>h\<in>set (HTTPServers s). net_DialTimeout e (Addr h) t = None)"

definition db_answers :: "Service \<Rightarrow> nat \<Rightarrow> bool" where
  "db_answers s t = (case DB s of None \<Rightarrow> True | Some db \<Rightarrow> db_Ping db t = None)"

definition cache_answers :: "Service \<Rightarrow> nat \<Rightarrow> bool" where
  "cache_answers s t = (case Redis s of None \<Rightarrow> True | Some r \<Rightarrow> fst (redis_Ping r t) = ''PONG'')"

definition subservices_ready :: "Service \<Rightarrow> nat \<Rightarrow> bool" where
  "subservices_ready s t = (\<forall>kv\<in>set (SubServices s). sub_Ready (snd kv) t)"

text \<open>
  The collaborators are steady from instant \<open>t\<close> for \<open>n\<close> instants when each of them answers
  at these instants as it does at \<open>t\<close>. \<open>probes s\<close> bounds the number of calls that one
  evaluation makes when no dial to an HTTP listener has to be repeated.
\<close>

definition steady :: "env \<Rightarrow> Service \<Rightarrow> nat \<Rightarrow> nat \<Rightarrow> bool" where
  "steady e s t n =
     (\<forall>k<n.
        (\<forall>a. net_DialTimeout e a (t + k) = net_DialTimeout e a t) \<and>
        (\<forall>a. grpc_DialContext e a (t + k) = grpc_DialContext e a t) \<and>
        (\<forall>db. DB s = Some db \<longrightarrow> db_Ping db (t + k) = db_Ping db t) \<and>
        (\<forall>r. Redis s = Some r \<longrightarrow> fst (redis_Ping r (t + k)) = fst (redis_Ping r t)) \<and>
        (\<forall>kv\<in>set (SubServices s). sub_Ready (snd kv) (t + k) = sub_Ready (snd kv) t))"

definition probes :: "Service \<Rightarrow> nat" where
  "probes s =
     length (SubServices s) + Suc (length (GRPCServers s)) + 2 * length (HTTPServers s) + 2"

text \<open>
  A database that answers pings before instant \<open>n\<close> and fails from then on, a sub-service
  that is ready and fails to close, an orchestrator as \<open>New\<close> builds it with a gRPC
  listener, the status listener, that database and that sub-service, and a world in
  which \<open>n\<close> calls have been made.
\<close>

definition db_down_from :: "nat \<Rightarrow> DB" where
  "db_down_from n =
     \<lparr>db_Ping = (\<lambda>t. if t < n then None else Some (ErrorString ''connection lost'')),
      db_Close = (\<lambda>t. None)\<rparr>"

definition worker :: SubService where
  "worker = \<lparr>sub_Ready = (\<lambda>t. True), sub_Name = ''worker'',
             sub_Close = (\<lambda>t. Some (ErrorString ''close failed''))\<rparr>"

definition example_Service :: Service where
  "example_Service =
     \<lparr>Name = ''test'', ctx = Background, GRPCServers = [\<lparr>address = '':8080''\<rparr>],
      HTTPServers = [\<lparr>Addr = '':5051'', Handler = TechRouter (Some 0)\<rparr>],
      DB = Some (db_down_from 10), Redis = None, isReady = Some 0,
      SubServices = [(''worker'', worker)],
      sigHandler = NilTrap\<rparr>"

definition world_after :: "nat \<Rightarrow> world" where
  "world_after n = world0\<lparr>calls := replicate n DBPing\<rparr>"

text \<open>
  A cache that answers the canonical reply together with an error, and an orchestrator
  with no listener and no dependency.
\<close>

definition redis_pong_with_error :: Redis where
  "redis_pong_with_error =
     \<lparr>redis_Ping = (\<lambda>t. (''PONG'', Some (ErrorString ''i/o timeout''))), redis_Close = (\<lambda>t. None)\<rparr>"

definition bare_Service :: Service where
  "bare_Service =
     \<lparr>Name = ''test'', ctx = Background, GRPCServers = [], HTTPServers = [], DB = None,
      Redis = None, isReady = Some 0, SubServices = [], sigHandler = NilTrap\<rparr>"

section \<open>The life of an orchestrator before its readiness evaluation\<close>

text \<open>
  The states that an orchestrator and the world go through from \<open>New\<close> on, as long as
  its own readiness evaluation has not completed: the caller changes exported fields,
  adds listeners, sets the context, asks \<open>IsAlive\<close>, calls \<open>Start\<close> and \<open>Stop\<close>; requests
  are served on the status routes; other orchestrators are built and evaluate their own
  readiness in the same world.
\<close>

inductive awaiting_evaluation :: "env \<Rightarrow> Service \<Rightarrow> world \<Rightarrow> bool" for e :: env where
  constructed:
    "New c name options w = (Inr s, w') \<Longrightarrow> awaiting_evaluation e s w'"
| exported_fields:
    "awaiting_evaluation e s w \<Longrightarrow>
     awaiting_evaluation e
       (s\<lparr>Name := n, GRPCServers := gs, HTTPServers := hs, DB := db, Redis := r,
          SubServices := subs\<rparr>) w"
| added_listener:
    "awaiting_evaluation e s w \<Longrightarrow> awaiting_evaluation e (AddHTTPServer httpServer s) w"
| context_set:
    "awaiting_evaluation e s w \<Longrightarrow> awaiting_evaluation e (SetContext c s) w"
| asked_alive:
    "awaiting_evaluation e s w \<Longrightarrow> IsAlive e s w = Some (up, w') \<Longrightarrow>
     awaiting_evaluation e s w'"
| served:
    "awaiting_evaluation e s w \<Longrightarrow>
     ServeHTTP e s (isReady s) r rw w = Some (Returns (rw', w')) \<Longrightarrow>
     awaiting_evaluation e s w'"
| started:
    "awaiting_evaluation e s w \<Longrightarrow> Start s t pick w = (tasks, Some (err, w')) \<Longrightarrow>
     awaiting_evaluation e s w'"
| stopped:
    "awaiting_evaluation e s w \<Longrightarrow> awaiting_evaluation e s (Stop e s w)"
| other_constructed:
    "awaiting_evaluation e s w \<Longrightarrow> New c name options w = (res, w') \<Longrightarrow>
     awaiting_evaluation e s w'"
| other_evaluated:
    "awaiting_evaluation e s w \<Longrightarrow> isReady s' \<noteq> isReady s \<Longrightarrow>
     Ready e s' w = Some (Returns w') \<Longrightarrow> awaiting_evaluation e s w'"

section \<open>Properties\<close>

subsection \<open>The world\<close>

lemma now_tick [simp]: "now (tick c w) = Suc (now w)" by (simp add: now_def tick_def)
lemma now_logf [simp]: "now (logf l m w) = now w" by (simp add: now_def logf_def)
lemma calls_tick [simp]: "calls (tick c w) = calls w @ [c]" by (simp add: tick_def)
lemma calls_logf [simp]: "calls (logf l m w) = calls w" by (simp add: logf_def)

lemma loop_done: "checkHTTPServerUp_loop e a None w = Some w"
  by (subst checkHTTPServerUp_loop.simps) simp

lemma loop_step_ok:
  "net_DialTimeout e a (now w) = None \<Longrightarrow>
   checkHTTPServerUp_loop e a (Some x) w = Some (tick (NetDialTimeout a) w)"
  by (subst checkHTTPServerUp_loop.simps) (simp add: loop_done)

lemma loop_step_fail:
  "net_DialTimeout e a (now w) = Some err' \<Longrightarrow>
   checkHTTPServerUp_loop e a (Some x) w =
   checkHTTPServerUp_loop e a (Some err') (logf Debug (Error err') (tick (NetDialTimeout a) w))"
  by (subst checkHTTPServerUp_loop.simps) simp

lemma loop_returns_dial:
  assumes "checkHTTPServerUp_loop e a err w = Some w'"
  shows "err \<noteq> None \<longrightarrow> (\<exists>k. net_DialTimeout e a (now w + k) = None)"
proof (rule checkHTTPServerUp_loop.raw_induct
    [where P = "\<lambda>e a err w w'. err \<noteq> None \<longrightarrow> (\<exists>k. net_DialTimeout e a (now w + k) = None)",
     OF _ assms])
  fix loop :: "env \<Rightarrow> address \<Rightarrow> error option \<Rightarrow> world \<Rightarrow> world option"
  fix e a err w w'
  assume IH: "\<And>e a err w w'. loop e a err w = Some w' \<Longrightarrow>
                err \<noteq> None \<longrightarrow> (\<exists>k. net_DialTimeout e a (now w + k) = None)"
  assume body: "(case err of None \<Rightarrow> Some w
      | Some x \<Rightarrow>
          case net_DialTimeout e a (now w) of
          None \<Rightarrow> loop e a None (tick (NetDialTimeout a) w)
          | Some err' \<Rightarrow>
              loop e a (Some err')
               (logf Debug (Error err') (tick (NetDialTimeout a) w))) = Some w'"
  show "err \<noteq> None \<longrightarrow> (\<exists>k. net_DialTimeout e a (now w + k) = None)"
  proof (cases "net_DialTimeout e a (now w)")
    case None
    then have "net_DialTimeout e a (now w + 0) = None" by simp
    then show ?thesis by blast
  next
    case (Some err')
    show ?thesis
    proof
      assume "err \<noteq> None"
      with Some body
      have "loop e a (Some err') (logf Debug (Error err') (tick (NetDialTimeout a) w)) = Some w'"
        by auto
      from IH[OF this] obtain k where "net_DialTimeout e a (Suc (now w) + k) = None"
        by auto
      then have "net_DialTimeout e a (now w + Suc k) = None" by simp
      then show "\<exists>k. net_DialTimeout e a (now w + k) = None" by blast
    qed
  qed
qed

lemma loop_never:
  assumes "\<forall>k. net_DialTimeout e a (now w + k) \<noteq> None"
  shows "checkHTTPServerUp_loop e a (Some x) w = None"
proof (cases "checkHTTPServerUp_loop e a (Some x) w")
  case None
  then show ?thesis .
next
  case (Some w')
  from loop_returns_dial[OF Some] assms show ?thesis by simp
qed

lemma loop_first_success:
  "net_DialTimeout e a (now w + k) = None \<Longrightarrow>
   \<forall>j<k. net_DialTimeout e a (now w + j) \<noteq> None \<Longrightarrow>
   \<exists>w'. checkHTTPServerUp_loop e a (Some x) w = Some w' \<and>
        calls w' = calls w @ replicate (Suc k) (NetDialTimeout a) \<and>
        atomics w' = atomics w \<and> allocated w' = allocated w \<and> exited w' = exited w"
proof (induction k arbitrary: w x)
  case 0
  then show ?case by (simp add: loop_step_ok tick_def)
next
  case (Suc k)
  from Suc.prems(2) have "net_DialTimeout e a (now w + 0) \<noteq> None" by blast
  then obtain err' where f: "net_DialTimeout e a (now w) = Some err'" by auto
  let ?w = "logf Debug (Error err') (tick (NetDialTimeout a) w)"
  from Suc.prems(1) have 1: "net_DialTimeout e a (now ?w + k) = None" by simp
  have 2: "\<forall>j<k. net_DialTimeout e a (now ?w + j) \<noteq> None"
  proof (intro allI impI)
    fix j assume "j < k"
    then have "Suc j < Suc k" by simp
    with Suc.prems(2) have "net_DialTimeout e a (now w + Suc j) \<noteq> None" by blast
    then show "net_DialTimeout e a (now ?w + j) \<noteq> None" by simp
  qed
  from Suc.IH[OF 1 2, of err'] obtain w' where
    "checkHTTPServerUp_loop e a (Some err') ?w = Some w'"
    "calls w' = calls ?w @ replicate (Suc k) (NetDialTimeout a)"
    "atomics w' = atomics ?w" "allocated w' = allocated ?w" "exited w' = exited ?w"
    by blast
  then show ?case
    by (simp add: loop_step_fail[OF f] replicate_app_Cons_same tick_def logf_def)
qed

lemma checkHTTPServerUp_never:
  "\<forall>k. net_DialTimeout e (Addr h) (now w + k) \<noteq> None \<Longrightarrow> checkHTTPServerUp e h w = None"
  by (simp add: checkHTTPServerUp_def loop_never)

lemma checkHTTPServerUp_first_success:
  assumes "net_DialTimeout e (Addr h) (now w + k) = None"
    and "\<forall>j<k. net_DialTimeout e (Addr h) (now w + j) \<noteq> None"
  shows "\<exists>w'. checkHTTPServerUp e h w = Some (True, w') \<and>
        calls w' = calls w @ replicate (Suc k) (NetDialTimeout (Addr h)) @ [ConnClose (Addr h)] \<and>
        atomics w' = atomics w \<and> allocated w' = allocated w \<and> exited w' = exited w"
proof -
  from loop_first_success[OF assms] obtain w1 where
    "checkHTTPServerUp_loop e (Addr h) (Some (ErrorString ''http server not ready'')) w = Some w1"
    "calls w1 = calls w @ replicate (Suc k) (NetDialTimeout (Addr h))"
    "atomics w1 = atomics w" "allocated w1 = allocated w" "exited w1 = exited w"
    by blast
  then show ?thesis
    by (simp add: checkHTTPServerUp_def tick_def logf_def)
qed

lemma checkHTTPServerUp_only_True:
  "checkHTTPServerUp e h w = Some (b, w') \<Longrightarrow> b"
  by (auto simp: checkHTTPServerUp_def split: option.splits)

text \<open>
  C4, as the code has it. The check dials again after every failed dial, without a bound
  on the number of dials and without a deadline. When no dial is ever accepted it does
  not return. When the first accepted dial is the one after \<open>k\<close> failed ones, it returns
  true after exactly \<open>k + 1\<close> dials and closes the connection. It never returns false.
\<close>

theorem checkHTTPServerUp_retries_until_connected:
  "((\<forall>k. net_DialTimeout e (Addr h) (now w + k) \<noteq> None) \<longrightarrow> checkHTTPServerUp e h w = None) \<and>
   (net_DialTimeout e (Addr h) (now w + k) = None \<and>
    (\<forall>j<k. net_DialTimeout e (Addr h) (now w + j) \<noteq> None) \<longrightarrow>
      (\<exists>w'. checkHTTPServerUp e h w = Some (True, w') \<and>
            calls w' = calls w @ replicate (Suc k) (NetDialTimeout (Addr h)) @ [ConnClose (Addr h)])) \<and>
   (\<forall>b w'. checkHTTPServerUp e h w = Some (b, w') \<longrightarrow> b)"
  using checkHTTPServerUp_never[of e h w] checkHTTPServerUp_first_success[of e h w k]
    checkHTTPServerUp_only_True[of e h w]
  by blast

theorem checkHTTPServerUp_retries_until_connected_witness:
  "checkHTTPServerUp env_refusing \<lparr>Addr = '':8081'', Handler = OtherHandler\<rparr> world0 = None \<and>
   (\<exists>w'. checkHTTPServerUp (env_up_from 2) \<lparr>Addr = '':8081'', Handler = OtherHandler\<rparr> world0 = Some (True, w') \<and>
      calls w' = [NetDialTimeout '':8081'', NetDialTimeout '':8081'', NetDialTimeout '':8081'', ConnClose '':8081''])"
  using checkHTTPServerUp_retries_until_connected
          [of env_refusing "\<lparr>Addr = '':8081'', Handler = OtherHandler\<rparr>" world0 0]
        checkHTTPServerUp_retries_until_connected
          [of "env_up_from 2" "\<lparr>Addr = '':8081'', Handler = OtherHandler\<rparr>" world0 2]
  by (simp add: env_refusing_def env_up_from_def world0_def now_def numeral_2_eq_2 less_Suc_eq)

text \<open>
  C4, as stated, fails: on an address that never accepts a connection the check does not
  return, neither false nor anything else.
\<close>

theorem checkHTTPServerUp_unbounded_counterexample:
  "\<not> (\<exists>b w'. checkHTTPServerUp env_refusing \<lparr>Addr = '':8081'', Handler = OtherHandler\<rparr> world0 = Some (b, w'))"
  using checkHTTPServerUp_never[of env_refusing "\<lparr>Addr = '':8081'', Handler = OtherHandler\<rparr>" world0]
  by (simp add: env_refusing_def)

subsection \<open>Shutdown\<close>






subsection \<open>Construction\<close>




subsection \<open>The options of the package\<close>

lemma Apply_recognized: "recognized opt \<Longrightarrow> snd (Apply opt s) = None"
  by (cases opt) simp_all

lemma range_options_recognized:
  "\<forall>opt\<in>set options. recognized opt \<Longrightarrow> \<exists>s'. range_options options s = Inr s'"
proof (induction options arbitrary: s)
  case Nil
  show ?case by simp
next
  case (Cons opt options)
  then have r: "recognized opt" and rest: "\<forall>opt\<in>set options. recognized opt" by simp_all
  obtain s1 err where a: "Apply opt s = (s1, err)" by (cases "Apply opt s")
  with Apply_recognized[OF r, of s] have "err = None" by simp
  with a Cons.IH[OF rest, of s1] show ?case by simp
qed

text \<open>
  C10. \<open>Apply\<close> of each of \<open>WithGRPCServer\<close>, \<open>WithTechHTTPServerOption\<close>, \<open>WithDB\<close> and
  \<open>WithRedis\<close> returns nil on every orchestrator, and \<open>New\<close> with options of these four
  kinds only returns an orchestrator and no error.
\<close>

theorem recognized_options_never_fail:
  "snd (Apply (WithGRPCServer a) s) = None \<and>
   snd (Apply (WithTechHTTPServerOption a) s) = None \<and>
   snd (Apply (WithDB db) s) = None \<and>
   snd (Apply (WithRedis r) s) = None \<and>
   ((\<forall>opt\<in>set options. recognized opt) \<longrightarrow> (\<exists>s'. fst (New c name options w) = Inr s'))"
  using range_options_recognized[of options]
  by (simp add: WithGRPCServer_def WithTechHTTPServerOption_def WithDB_def WithRedis_def
      New_def Let_def)

theorem recognized_options_never_fail_witness:
  "\<exists>s'. fst (New Background ''test'' [WithGRPCServer '':8080'', WithTechHTTPServerOption '':5051''] world0) = Inr s'"
  using recognized_options_never_fail
    [of _ _ _ _ "[WithGRPCServer '':8080'', WithTechHTTPServerOption '':5051'']" Background "''test''" world0]
  by (simp add: WithGRPCServer_def WithTechHTTPServerOption_def)

subsection \<open>Liveness and readiness, by sub-condition\<close>

lemma IsAlive_unfold:
  "IsAlive e s w =
     (case range_HTTPServers e (HTTPServers s) True (snd (grpc_condition Debug ''grpc servers not ready'' e s w)) of
        None \<Rightarrow> None
      | Some (h, w2) \<Rightarrow>
          Some (fst (grpc_condition Debug ''grpc servers not ready'' e s w) \<and> h \<and>
                fst (db_condition s w2) \<and> fst (redis_condition s (snd (db_condition s w2))),
                snd (redis_condition s (snd (db_condition s w2)))))"
  unfolding IsAlive_def grpc_condition_def db_condition_def redis_condition_def
  by (cases "DB s"; cases "Redis s"; cases "GRPCServers s = []";
      cases "range_HTTPServers e (HTTPServers s) True w";
      cases "range_HTTPServers e (HTTPServers s) True (snd (checkGRPCServerUp e s w))";
      cases "range_HTTPServers e (HTTPServers s) True
               (logf Debug ''grpc servers not ready'' (snd (checkGRPCServerUp e s w)))")
     (simp_all add: Let_def case_prod_beta)


lemma Ready_unfold:
  "Ready e s w =
     (case range_HTTPServers e (HTTPServers s) True
             (snd (grpc_condition ErrorLevel ''grpc server not ready'' e s
                    (snd (range_SubServices (SubServices s) True w)))) of
        None \<Rightarrow> None
      | Some (h, w2) \<Rightarrow>
          (case isReady s of
             None \<Rightarrow> Some Panics
           | Some p \<Rightarrow>
               Some (Returns (Store p
                 (Bool (fst (range_SubServices (SubServices s) True w) \<and>
                        fst (grpc_condition ErrorLevel ''grpc server not ready'' e s
                              (snd (range_SubServices (SubServices s) True w))) \<and> h \<and>
                        fst (db_condition s w2) \<and> fst (redis_condition s (snd (db_condition s w2)))))
                 (snd (redis_condition s (snd (db_condition s w2))))))))"
proof -
  define w0 where "w0 = snd (range_SubServices (SubServices s) True w)"
  show ?thesis
    unfolding Ready_def grpc_condition_def db_condition_def redis_condition_def w0_def[symmetric]
    by (cases "DB s"; cases "Redis s"; cases "GRPCServers s = []"; cases "isReady s";
        cases "range_HTTPServers e (HTTPServers s) True w0";
        cases "range_HTTPServers e (HTTPServers s) True (snd (checkGRPCServerUp e s w0))";
        cases "range_HTTPServers e (HTTPServers s) True
               (logf ErrorLevel ''grpc server not ready'' (snd (checkGRPCServerUp e s w0)))")
       (simp_all add: Let_def case_prod_beta Swap_def Store_def w0_def[symmetric])
qed

lemma now_tick_logf [simp]: "now (logf l m (tick c w)) = Suc (now w)" by simp

lemma checkGRPCServerUp_loop_steady:
  assumes "\<forall>k<n. \<forall>a. grpc_DialContext e a (t + k) = grpc_DialContext e a t"
    and "t \<le> now w" and "now w + length gs \<le> t + n"
  shows "fst (checkGRPCServerUp_loop e gs conn w) = (\<forall>g\<in>set gs. grpc_DialContext e (address g) t = None)
       \<and> now w \<le> now (snd (snd (checkGRPCServerUp_loop e gs conn w)))
       \<and> now (snd (snd (checkGRPCServerUp_loop e gs conn w))) \<le> now w + length gs"
  using assms(2,3)
proof (induction gs arbitrary: conn w)
  case Nil
  show ?case by simp
next
  case (Cons g gs)
  from Cons.prems have "now w - t < n" and "t + (now w - t) = now w" by simp_all
  with assms(1) have here: "grpc_DialContext e (address g) (now w) = grpc_DialContext e (address g) t"
    by metis
  show ?case
  proof (cases "grpc_DialContext e (address g) t")
    case (Some err)
    with here show ?thesis by simp
  next
    case None
    let ?w = "logf Debug ''grpc server ready %s'' (tick (GrpcDialContext (address g)) w)"
    from Cons.prems have "t \<le> now ?w" "now ?w + length gs \<le> t + n" by simp_all
    from Cons.IH[OF this, of "Some (address g)"] None here show ?thesis by simp
  qed
qed

lemma grpc_condition_steady:
  assumes "\<forall>k<n. \<forall>a. grpc_DialContext e a (t + k) = grpc_DialContext e a t"
    and "t \<le> now w" and "now w + Suc (length (GRPCServers s)) \<le> t + n"
  shows "fst (grpc_condition l m e s w) = grpc_reachable e s t
       \<and> now w \<le> now (snd (grpc_condition l m e s w))
       \<and> now (snd (grpc_condition l m e s w)) \<le> now w + Suc (length (GRPCServers s))"
proof (cases "GRPCServers s = []")
  case True
  then show ?thesis by (simp add: grpc_condition_def grpc_reachable_def)
next
  case False
  from assms(3) have "now w + length (GRPCServers s) \<le> t + n" by simp
  from checkGRPCServerUp_loop_steady[OF assms(1,2) this, of None]
  show ?thesis using False
    by (cases "checkGRPCServerUp_loop e (GRPCServers s) None w")
       (auto simp: grpc_condition_def grpc_reachable_def checkGRPCServerUp_def
             split: option.splits)
qed


lemma range_HTTPServers_steady:
  assumes "\<forall>k<n. \<forall>a. net_DialTimeout e a (t + k) = net_DialTimeout e a t"
    and "t \<le> now w" and "now w + 2 * length hs \<le> t + n"
    and "\<forall>h\<in>set hs. net_DialTimeout e (Addr h) t = None"
  shows "\<exists>w'. range_HTTPServers e hs acc w = Some (acc, w') \<and> now w' = now w + 2 * length hs
           \<and> atomics w' = atomics w"
  using assms(2,3,4)
proof (induction hs arbitrary: w)
  case Nil
  show ?case by simp
next
  case (Cons h hs)
  from Cons.prems have "now w - t < n" and "t + (now w - t) = now w" by simp_all
  with assms(1) have "net_DialTimeout e (Addr h) (now w) = net_DialTimeout e (Addr h) t"
    by metis
  with Cons.prems(3) have "net_DialTimeout e (Addr h) (now w + 0) = None" by simp
  from checkHTTPServerUp_first_success[OF this] obtain w1 where
    c: "checkHTTPServerUp e h w = Some (True, w1)"
    and k: "calls w1 = calls w @ replicate (Suc 0) (NetDialTimeout (Addr h)) @ [ConnClose (Addr h)]"
    and a: "atomics w1 = atomics w"
    by auto
  from k have n1: "now w1 = now w + 2" by (simp add: now_def)
  with Cons.prems have "t \<le> now w1" "now w1 + 2 * length hs \<le> t + n"
    "\<forall>h\<in>set hs. net_DialTimeout e (Addr h) t = None" by simp_all
  from Cons.IH[OF this] obtain w' where
    "range_HTTPServers e hs acc w1 = Some (acc, w')" "now w' = now w1 + 2 * length hs"
    "atomics w' = atomics w1" by blast
  with c n1 a show ?case by simp
qed

lemma range_HTTPServers_never:
  assumes "h \<in> set hs" and "\<forall>t. net_DialTimeout e (Addr h) t \<noteq> None"
  shows "range_HTTPServers e hs acc w = None"
  using assms(1)
proof (induction hs arbitrary: acc w)
  case Nil
  then show ?case by simp
next
  case (Cons h0 hs)
  show ?case
  proof (cases "checkHTTPServerUp e h0 w")
    case None
    then show ?thesis by simp
  next
    case (Some r)
    obtain up w1 where r: "r = (up, w1)" by (cases r)
    have "h \<noteq> h0"
    proof
      assume "h = h0"
      with assms(2) checkHTTPServerUp_never[of e h0 w] Some show False by simp
    qed
    with Cons.prems have "h \<in> set hs" by simp
    from Cons.IH[OF this] Some r show ?thesis by simp
  qed
qed

lemma db_condition_now:
  "fst (db_condition s w) = db_answers s (now w)
   \<and> now w \<le> now (snd (db_condition s w)) \<and> now (snd (db_condition s w)) \<le> Suc (now w)
   \<and> atomics (snd (db_condition s w)) = atomics w"
  by (cases "DB s")
     (simp_all add: db_condition_def db_answers_def checkDBAlive_def Let_def logf_def tick_def now_def)

lemma redis_condition_now:
  "fst (redis_condition s w) = cache_answers s (now w)
   \<and> now w \<le> now (snd (redis_condition s w)) \<and> now (snd (redis_condition s w)) \<le> Suc (now w)
   \<and> atomics (snd (redis_condition s w)) = atomics w"
  by (cases "Redis s")
     (simp_all add: redis_condition_def cache_answers_def checkRedisAlive_def Let_def logf_def
        tick_def now_def case_prod_beta)

lemma range_SubServices_Cons:
  "range_SubServices ((key, sub) # rest) acc w =
     range_SubServices rest (acc \<and> sub_Ready sub (now w))
       (logf Info ''subservice is ready subservice %s''
         (if \<not> sub_Ready sub (now w)
          then logf ErrorLevel ''subservice not ready subservice %s'' (tick (SubReady (sub_Name sub)) w)
          else tick (SubReady (sub_Name sub)) w))"
  by (simp add: Let_def)

lemma range_SubServices_steady:
  assumes "\<forall>k<n. \<forall>kv\<in>set subs. sub_Ready (snd kv) (t + k) = sub_Ready (snd kv) t"
    and "t \<le> now w" and "now w + length subs \<le> t + n"
  shows "fst (range_SubServices subs acc w) = (acc \<and> (\<forall>kv\<in>set subs. sub_Ready (snd kv) t))
       \<and> now (snd (range_SubServices subs acc w)) = now w + length subs
       \<and> atomics (snd (range_SubServices subs acc w)) = atomics w"
  using assms
proof (induction subs arbitrary: acc w)
  case Nil
  show ?case by simp
next
  case (Cons kv rest)
  obtain key sub where kv: "kv = (key, sub)" by (cases kv)
  from Cons.prems have "now w - t < n" and "t + (now w - t) = now w" by simp_all
  with Cons.prems(1) kv have here: "sub_Ready sub (now w) = sub_Ready sub t"
    by (metis list.set_intros(1) snd_conv)
  let ?w = "logf Info ''subservice is ready subservice %s''
         (if \<not> sub_Ready sub (now w)
          then logf ErrorLevel ''subservice not ready subservice %s'' (tick (SubReady (sub_Name sub)) w)
          else tick (SubReady (sub_Name sub)) w)"
  have nw: "now ?w = Suc (now w)" and aw: "atomics ?w = atomics w"
    by (simp_all add: logf_def tick_def now_def)
  from Cons.prems nw have p: "\<forall>k<n. \<forall>kv\<in>set rest. sub_Ready (snd kv) (t + k) = sub_Ready (snd kv) t"
    "t \<le> now ?w" "now ?w + length rest \<le> t + n"
    by simp_all
  from Cons.IH[OF p, of "acc \<and> sub_Ready sub (now w)"] here nw aw kv
  show ?case
    by (simp only: range_SubServices_Cons) auto
qed

lemma atomics_tick [simp]: "atomics (tick c w) = atomics w" by (simp add: tick_def)
lemma atomics_logf [simp]: "atomics (logf l m w) = atomics w" by (simp add: logf_def)

lemma atomics_checkGRPCServerUp_loop:
  "atomics (snd (snd (checkGRPCServerUp_loop e gs conn w))) = atomics w"
  by (induction gs arbitrary: conn w) (simp_all split: option.splits)

lemma atomics_grpc_condition: "atomics (snd (grpc_condition l m e s w)) = atomics w"
  using atomics_checkGRPCServerUp_loop[of e "GRPCServers s" None w]
  by (cases "checkGRPCServerUp_loop e (GRPCServers s) None w")
     (auto simp: grpc_condition_def checkGRPCServerUp_def split: option.splits)

lemma steady_db_answers:
  "steady e s t n \<Longrightarrow> t \<le> u \<Longrightarrow> u < t + n \<Longrightarrow> db_answers s u = db_answers s t"
proof -
  assume st: "steady e s t n" and "t \<le> u" "u < t + n"
  then have "u - t < n" "t + (u - t) = u" by simp_all
  with st have "\<forall>db. DB s = Some db \<longrightarrow> db_Ping db (t + (u - t)) = db_Ping db t"
    unfolding steady_def by blast
  with \<open>t + (u - t) = u\<close> show ?thesis
    by (cases "DB s") (simp_all add: db_answers_def)
qed

lemma steady_cache_answers:
  "steady e s t n \<Longrightarrow> t \<le> u \<Longrightarrow> u < t + n \<Longrightarrow> cache_answers s u = cache_answers s t"
proof -
  assume st: "steady e s t n" and "t \<le> u" "u < t + n"
  then have "u - t < n" "t + (u - t) = u" by simp_all
  with st have "\<forall>r. Redis s = Some r \<longrightarrow> fst (redis_Ping r (t + (u - t))) = fst (redis_Ping r t)"
    unfolding steady_def by blast
  with \<open>t + (u - t) = u\<close> show ?thesis
    by (cases "Redis s") (simp_all add: cache_answers_def)
qed

lemma IsAlive_steady:
  assumes st: "steady e s (now w) (probes s)" and up: "http_reachable e s (now w)"
  shows "\<exists>w'. IsAlive e s w =
            Some (grpc_reachable e s (now w) \<and> db_answers s (now w) \<and> cache_answers s (now w), w')
          \<and> atomics w' = atomics w"
proof -
  let ?t = "now w" and ?n = "probes s"
  let ?g = "grpc_condition Debug ''grpc servers not ready'' e s w"
  from st have gw: "\<forall>k<?n. \<forall>a. grpc_DialContext e a (?t + k) = grpc_DialContext e a ?t"
    and hw: "\<forall>k<?n. \<forall>a. net_DialTimeout e a (?t + k) = net_DialTimeout e a ?t"
    by (simp_all add: steady_def)
  have "now w + Suc (length (GRPCServers s)) \<le> ?t + ?n" by (simp add: probes_def)
  from grpc_condition_steady[OF gw _ this, of Debug "''grpc servers not ready''"]
  have g1: "fst ?g = grpc_reachable e s ?t" and g2: "?t \<le> now (snd ?g)"
    and g3: "now (snd ?g) \<le> ?t + Suc (length (GRPCServers s))" by simp_all
  from g3 have "now (snd ?g) + 2 * length (HTTPServers s) \<le> ?t + ?n" by (simp add: probes_def)
  from range_HTTPServers_steady[OF hw g2 this, of True] up obtain w2 where
    h1: "range_HTTPServers e (HTTPServers s) True (snd ?g) = Some (True, w2)"
    and h2: "now w2 = now (snd ?g) + 2 * length (HTTPServers s)"
    and h3: "atomics w2 = atomics (snd ?g)"
    by (auto simp: http_reachable_def)
  let ?d = "db_condition s w2"
  from h2 g2 g3 have "?t \<le> now w2" "now w2 < ?t + ?n" by (simp_all add: probes_def)
  from steady_db_answers[OF st this] db_condition_now[of s w2]
  have d1: "fst ?d = db_answers s ?t" by simp
  from db_condition_now[of s w2] h2 g2 g3
  have "?t \<le> now (snd ?d)" "now (snd ?d) < ?t + ?n" by (simp_all add: probes_def)
  from steady_cache_answers[OF st this] redis_condition_now[of s "snd ?d"]
  have r1: "fst (redis_condition s (snd ?d)) = cache_answers s ?t" by simp
  have "atomics (snd (redis_condition s (snd ?d))) = atomics w"
    using redis_condition_now[of s "snd ?d"] db_condition_now[of s w2] h3
    by (simp add: atomics_grpc_condition)
  with h1 g1 d1 r1 show ?thesis
    by (simp add: IsAlive_unfold)
qed

lemma IsAlive_never:
  "h \<in> set (HTTPServers s) \<Longrightarrow> \<forall>t. net_DialTimeout e (Addr h) t \<noteq> None \<Longrightarrow> IsAlive e s w = None"
  by (simp add: IsAlive_unfold range_HTTPServers_never)

lemma Ready_never:
  "h \<in> set (HTTPServers s) \<Longrightarrow> \<forall>t. net_DialTimeout e (Addr h) t \<noteq> None \<Longrightarrow> Ready e s w = None"
  by (simp add: Ready_unfold range_HTTPServers_never)

lemma Load_Store: "Load q (Store p v w) = (if q = p then v else Load q w)"
  by (simp add: Load_def Store_def)

lemma Ready_steady:
  assumes st: "steady e s (now w) (probes s)" and up: "http_reachable e s (now w)"
    and p: "isReady s = Some p"
  shows "\<exists>w'. Ready e s w = Some (Returns w')
          \<and> Load p w' = Bool (subservices_ready s (now w) \<and> grpc_reachable e s (now w) \<and>
                              db_answers s (now w) \<and> cache_answers s (now w))
          \<and> (\<forall>q. q \<noteq> p \<longrightarrow> Load q w' = Load q w)"
proof -
  let ?t = "now w" and ?n = "probes s"
  let ?b = "range_SubServices (SubServices s) True w"
  let ?g = "grpc_condition ErrorLevel ''grpc server not ready'' e s (snd ?b)"
  from st have gw: "\<forall>k<?n. \<forall>a. grpc_DialContext e a (?t + k) = grpc_DialContext e a ?t"
    and hw: "\<forall>k<?n. \<forall>a. net_DialTimeout e a (?t + k) = net_DialTimeout e a ?t"
    and sw: "\<forall>k<?n. \<forall>kv\<in>set (SubServices s). sub_Ready (snd kv) (?t + k) = sub_Ready (snd kv) ?t"
    by (simp_all add: steady_def)
  have "now w + length (SubServices s) \<le> ?t + ?n" by (simp add: probes_def)
  from range_SubServices_steady[OF sw _ this, of True]
  have b1: "fst ?b = subservices_ready s ?t" and b2: "now (snd ?b) = ?t + length (SubServices s)"
    and b3: "atomics (snd ?b) = atomics w"
    by (simp_all add: subservices_ready_def)
  from b2 have "?t \<le> now (snd ?b)" "now (snd ?b) + Suc (length (GRPCServers s)) \<le> ?t + ?n"
    by (simp_all add: probes_def)
  from grpc_condition_steady[OF gw this, of ErrorLevel "''grpc server not ready''"]
  have g1: "fst ?g = grpc_reachable e s ?t" and g2: "?t \<le> now (snd ?g)"
    and g3: "now (snd ?g) \<le> ?t + length (SubServices s) + Suc (length (GRPCServers s))"
    using b2 by simp_all
  from g3 have "now (snd ?g) + 2 * length (HTTPServers s) \<le> ?t + ?n" by (simp add: probes_def)
  from range_HTTPServers_steady[OF hw g2 this, of True] up obtain w2 where
    h1: "range_HTTPServers e (HTTPServers s) True (snd ?g) = Some (True, w2)"
    and h2: "now w2 = now (snd ?g) + 2 * length (HTTPServers s)"
    and h3: "atomics w2 = atomics (snd ?g)"
    by (auto simp: http_reachable_def)
  let ?d = "db_condition s w2"
  from h2 g2 g3 have "?t \<le> now w2" "now w2 < ?t + ?n" by (simp_all add: probes_def)
  from steady_db_answers[OF st this] db_condition_now[of s w2]
  have d1: "fst ?d = db_answers s ?t" by simp
  from db_condition_now[of s w2] h2 g2 g3
  have "?t \<le> now (snd ?d)" "now (snd ?d) < ?t + ?n" by (simp_all add: probes_def)
  from steady_cache_answers[OF st this] redis_condition_now[of s "snd ?d"]
  have r1: "fst (redis_condition s (snd ?d)) = cache_answers s ?t" by simp
  have a: "atomics (snd (redis_condition s (snd ?d))) = atomics w"
    using redis_condition_now[of s "snd ?d"] db_condition_now[of s w2] h3 b3
    by (simp add: atomics_grpc_condition)
  from a have "\<forall>q. Load q (snd (redis_condition s (snd ?d))) = Load q w"
    by (simp add: Load_def)
  with h1 b1 g1 d1 r1 p show ?thesis
    by (simp add: Ready_unfold Load_Store)
qed

lemma Start_spawns_one_ReadyTask:
  "length (filter (\<lambda>x. x = ReadyTask) (fst (Start s t pick w))) = 1"
  by (simp add: Start_def filter_map comp_def)

lemma alive_single:
  "alive [c] rw w =
     (case c w of
        None \<Rightarrow> None
      | Some (up, w') \<Rightarrow> Some (if up then WriteHeader 200 rw else AnswerWithJSONError rw 503, w'))"
  by (simp split: option.splits)

text \<open>
  C1, as the code has it. While the collaborators are steady and every HTTP listener
  accepts a connection, \<open>IsAlive\<close> returns the conjunction of the conditions at the instant
  of the call: gRPC listeners reachable, HTTP listeners reachable, database answering,
  cache answering with the canonical reply. When some HTTP listener never accepts a
  connection, \<open>IsAlive\<close> does not return. A dependency that is not configured satisfies
  its condition. The handler of \<open>/health/live\<close> calls \<open>IsAlive\<close> at every request and
  answers from that result alone.
\<close>

theorem IsAlive_conjunction_when_listeners_accept:
  "(steady e s (now w) (probes s) \<and> http_reachable e s (now w) \<longrightarrow>
      (\<exists>w'. IsAlive e s w =
         Some (grpc_reachable e s (now w) \<and> http_reachable e s (now w) \<and>
               db_answers s (now w) \<and> cache_answers s (now w), w'))) \<and>
   ((\<exists>h\<in>set (HTTPServers s). \<forall>t. net_DialTimeout e (Addr h) t \<noteq> None) \<longrightarrow>
      IsAlive e s w = None) \<and>
   (GRPCServers s = [] \<longrightarrow> grpc_reachable e s t) \<and>
   (DB s = None \<longrightarrow> db_answers s t) \<and>
   (Redis s = None \<longrightarrow> cache_answers s t) \<and>
   alive [IsAlive e s] rw w =
     (case IsAlive e s w of
        None \<Rightarrow> None
      | Some (up, w') \<Rightarrow> Some (if up then WriteHeader 200 rw else AnswerWithJSONError rw 503, w'))"
proof -
  have 1: "steady e s (now w) (probes s) \<and> http_reachable e s (now w) \<longrightarrow>
      (\<exists>w'. IsAlive e s w =
         Some (grpc_reachable e s (now w) \<and> http_reachable e s (now w) \<and>
               db_answers s (now w) \<and> cache_answers s (now w), w'))"
    using IsAlive_steady[of e s w] by auto
  have 2: "(\<exists>h\<in>set (HTTPServers s). \<forall>t. net_DialTimeout e (Addr h) t \<noteq> None) \<longrightarrow>
      IsAlive e s w = None"
    using IsAlive_never[of _ s e w] by blast
  have 3: "GRPCServers s = [] \<longrightarrow> grpc_reachable e s t" by (simp add: grpc_reachable_def)
  have 4: "DB s = None \<longrightarrow> db_answers s t" by (simp add: db_answers_def)
  have 5: "Redis s = None \<longrightarrow> cache_answers s t" by (simp add: cache_answers_def)
  from 1 2 3 4 5 alive_single[of "IsAlive e s" rw w] show ?thesis by blast
qed

lemma steady_example_0: "steady (env_up_from 0) example_Service 0 (probes example_Service)"
  by (auto simp: steady_def example_Service_def probes_def env_up_from_def db_down_from_def
      worker_def)

lemma steady_example_10: "steady (env_up_from 0) example_Service 10 (probes example_Service)"
  by (auto simp: steady_def example_Service_def probes_def env_up_from_def db_down_from_def
      worker_def)

lemma now_world_after: "now (world_after n) = n"
  by (simp add: world_after_def now_def)

theorem IsAlive_conjunction_when_listeners_accept_witness:
  "(\<exists>w'. IsAlive (env_up_from 0) example_Service world0 = Some (True, w')) \<and>
   (\<exists>w'. IsAlive (env_up_from 0) example_Service (world_after 10) = Some (False, w')) \<and>
   IsAlive env_refusing example_Service world0 = None"
proof -
  have n0: "now world0 = 0" by (simp add: world0_def now_def)
  have h0: "http_reachable (env_up_from 0) example_Service 0"
    and h10: "http_reachable (env_up_from 0) example_Service 10"
    by (simp_all add: http_reachable_def example_Service_def env_up_from_def)
  have v0: "grpc_reachable (env_up_from 0) example_Service 0 \<and> db_answers example_Service 0
            \<and> cache_answers example_Service 0"
    by (simp add: grpc_reachable_def db_answers_def cache_answers_def example_Service_def
        env_up_from_def db_down_from_def)
  have v10: "\<not> db_answers example_Service 10"
    by (simp add: db_answers_def example_Service_def db_down_from_def)
  have r: "\<exists>h\<in>set (HTTPServers example_Service). \<forall>t. net_DialTimeout env_refusing (Addr h) t \<noteq> None"
    by (simp add: example_Service_def env_refusing_def)
  from IsAlive_conjunction_when_listeners_accept[of "env_up_from 0" example_Service world0]
    steady_example_0 h0 v0 n0
  have a: "\<exists>w'. IsAlive (env_up_from 0) example_Service world0 = Some (True, w')" by simp
  from IsAlive_conjunction_when_listeners_accept[of "env_up_from 0" example_Service "world_after 10"]
    steady_example_10 h10 v10
  have b: "\<exists>w'. IsAlive (env_up_from 0) example_Service (world_after 10) = Some (False, w')"
    by (simp add: now_world_after)
  from IsAlive_conjunction_when_listeners_accept[of env_refusing example_Service world0] r
  have c: "IsAlive env_refusing example_Service world0 = None" by blast
  from a b c show ?thesis by blast
qed

text \<open>
  C1, as stated, fails: with an HTTP listener that is not reachable the conjunction is
  false, and \<open>IsAlive\<close> does not return false; it does not return.
\<close>

theorem IsAlive_hangs_counterexample:
  "\<not> (\<exists>up w'. IsAlive env_refusing example_Service world0 = Some (up, w'))"
  using IsAlive_never[of "\<lparr>Addr = '':5051'', Handler = TechRouter (Some 0)\<rparr>" example_Service env_refusing world0]
  by (simp add: example_Service_def env_refusing_def)


text \<open>
  C2, as the code has it. \<open>Start\<close> spawns the readiness task once. While the collaborators
  are steady and every HTTP listener accepts a connection, the task returns and has
  stored in the readiness flag, and in no other cell, the conjunction of the conditions
  at the instant it began: sub-services ready, gRPC listeners reachable, HTTP listeners
  reachable, database answering, cache answering. When some HTTP listener never accepts
  a connection, the task does not return and stores nothing.
\<close>

theorem Ready_stores_conjunction_when_listeners_accept:
  "length (filter (\<lambda>x. x = ReadyTask) (fst (Start s t pick w0))) = 1 \<and>
   (steady e s (now w) (probes s) \<and> http_reachable e s (now w) \<and> isReady s = Some p \<longrightarrow>
      (\<exists>w'. Ready e s w = Some (Returns w') \<and>
            Load p w' = Bool (subservices_ready s (now w) \<and> grpc_reachable e s (now w) \<and>
                              http_reachable e s (now w) \<and>
                              db_answers s (now w) \<and> cache_answers s (now w)) \<and>
            (\<forall>q. q \<noteq> p \<longrightarrow> Load q w' = Load q w))) \<and>
   ((\<exists>h\<in>set (HTTPServers s). \<forall>t. net_DialTimeout e (Addr h) t \<noteq> None) \<longrightarrow>
      Ready e s w = None)"
proof -
  have 1: "steady e s (now w) (probes s) \<and> http_reachable e s (now w) \<and> isReady s = Some p \<longrightarrow>
      (\<exists>w'. Ready e s w = Some (Returns w') \<and>
            Load p w' = Bool (subservices_ready s (now w) \<and> grpc_reachable e s (now w) \<and>
                              http_reachable e s (now w) \<and>
                              db_answers s (now w) \<and> cache_answers s (now w)) \<and>
            (\<forall>q. q \<noteq> p \<longrightarrow> Load q w' = Load q w))"
    using Ready_steady[of e s w p] by auto
  have 2: "(\<exists>h\<in>set (HTTPServers s). \<forall>t. net_DialTimeout e (Addr h) t \<noteq> None) \<longrightarrow>
      Ready e s w = None"
    using Ready_never[of _ s e w] by blast
  from 1 2 Start_spawns_one_ReadyTask[of s t pick w0] show ?thesis by blast
qed

theorem Ready_stores_conjunction_when_listeners_accept_witness:
  "(\<exists>w'. Ready (env_up_from 0) example_Service world0 = Some (Returns w') \<and> Load 0 w' = Bool True) \<and>
   (\<exists>w'. Ready (env_up_from 0) example_Service (world_after 10) = Some (Returns w') \<and>
         Load 0 w' = Bool False) \<and>
   Ready env_refusing example_Service world0 = None"
proof -
  have n0: "now world0 = 0" by (simp add: world0_def now_def)
  have p: "isReady example_Service = Some 0" by (simp add: example_Service_def)
  have h0: "http_reachable (env_up_from 0) example_Service 0"
    and h10: "http_reachable (env_up_from 0) example_Service 10"
    by (simp_all add: http_reachable_def example_Service_def env_up_from_def)
  have v0: "subservices_ready example_Service 0 \<and> grpc_reachable (env_up_from 0) example_Service 0
            \<and> db_answers example_Service 0 \<and> cache_answers example_Service 0"
    by (simp add: subservices_ready_def grpc_reachable_def db_answers_def cache_answers_def
        example_Service_def env_up_from_def db_down_from_def worker_def)
  have v10: "\<not> db_answers example_Service 10"
    by (simp add: db_answers_def example_Service_def db_down_from_def)
  have r: "\<exists>h\<in>set (HTTPServers example_Service). \<forall>t. net_DialTimeout env_refusing (Addr h) t \<noteq> None"
    by (simp add: example_Service_def env_refusing_def)
  from Ready_stores_conjunction_when_listeners_accept
         [of example_Service 0 True world0 "env_up_from 0" world0 0]
    steady_example_0 h0 v0 n0 p
  have a: "\<exists>w'. Ready (env_up_from 0) example_Service world0 = Some (Returns w') \<and> Load 0 w' = Bool True"
    by auto
  from Ready_stores_conjunction_when_listeners_accept
         [of example_Service 0 True world0 "env_up_from 0" "world_after 10" 0]
    steady_example_10 h10 v10 p
  have b: "\<exists>w'. Ready (env_up_from 0) example_Service (world_after 10) = Some (Returns w') \<and>
         Load 0 w' = Bool False"
    by (auto simp: now_world_after)
  from Ready_stores_conjunction_when_listeners_accept
         [of example_Service 0 True world0 env_refusing world0] r
  have c: "Ready env_refusing example_Service world0 = None" by blast
  from a b c show ?thesis by blast
qed

text \<open>
  C2, as stated, fails: with an HTTP listener that is not reachable the readiness task
  never completes, so no boolean overwrites the flag.
\<close>

theorem Ready_hangs_counterexample:
  "\<not> (\<exists>r. Ready env_refusing example_Service world0 = Some r)"
  using Ready_never[of "\<lparr>Addr = '':5051'', Handler = TechRouter (Some 0)\<rparr>" example_Service env_refusing world0]
  by (simp add: example_Service_def env_refusing_def)

subsection \<open>The cache check\<close>

lemma checkRedisAlive_fst:
  "fst (checkRedisAlive r w) = (fst (redis_Ping r (now w)) = ''PONG'')"
  by (simp add: checkRedisAlive_def Let_def split: prod.splits)

lemma checkRedisAlive_logs:
  "logs (snd (checkRedisAlive r w)) =
     logs w @
     (if snd (redis_Ping r (now w)) \<noteq> None then [(Debug, ''redis is not ready'')] else []) @
     (if fst (redis_Ping r (now w)) = ''PONG'' then [(Debug, ''redis is ready'')] else [])"
  by (simp add: checkRedisAlive_def Let_def logf_def tick_def split: prod.splits)

lemma grpc_condition_Redis [simp]:
  "grpc_condition l m e (s\<lparr>Redis := x\<rparr>) w = grpc_condition l m e s w"
  by (simp add: grpc_condition_def checkGRPCServerUp_def)

lemma db_condition_Redis [simp]: "db_condition (s\<lparr>Redis := x\<rparr>) w = db_condition s w"
  by (simp add: db_condition_def)

lemma redis_condition_Some [simp]: "redis_condition (s\<lparr>Redis := Some r\<rparr>) w = checkRedisAlive r w"
  by (simp add: redis_condition_def)

lemma redis_condition_None [simp]: "redis_condition (s\<lparr>Redis := None\<rparr>) w = (True, w)"
  by (simp add: redis_condition_def)

lemma IsAlive_Redis:
  "IsAlive e (s\<lparr>Redis := Some r\<rparr>) w =
     (case IsAlive e (s\<lparr>Redis := None\<rparr>) w of
        None \<Rightarrow> None
      | Some (up, w1) \<Rightarrow>
          Some (up \<and> fst (redis_Ping r (now w1)) = ''PONG'', snd (checkRedisAlive r w1)))"
  by (simp add: IsAlive_unfold checkRedisAlive_fst split: option.splits)

lemma now_Store [simp]: "now (Store p v w) = now w"
  by (simp add: Store_def now_def)

lemma Ready_Redis:
  "Ready e (s\<lparr>Redis := None\<rparr>) w = Some (Returns w1) \<Longrightarrow> isReady s = Some p \<Longrightarrow>
   \<exists>w2. Ready e (s\<lparr>Redis := Some r\<rparr>) w = Some (Returns w2) \<and>
        Load p w2 = Bool (Load p w1 = Bool True \<and> fst (redis_Ping r (now w1)) = ''PONG'')"
  by (auto simp: Ready_unfold checkRedisAlive_fst Load_Store split: option.splits)

text \<open>
  C9. The cache check is true exactly when the reply of the ping is \<open>PONG\<close>, whatever the
  error returned with it; the error only adds a log line. Attaching a cache handle to an
  orchestrator conjoins exactly that condition to the result of \<open>IsAlive\<close> and to the
  value that the readiness evaluation stores.
\<close>

theorem cache_alive_iff_reply_is_PONG:
  "fst (checkRedisAlive r w) = (fst (redis_Ping r (now w)) = ''PONG'') \<and>
   logs (snd (checkRedisAlive r w)) =
     logs w @
     (if snd (redis_Ping r (now w)) \<noteq> None then [(Debug, ''redis is not ready'')] else []) @
     (if fst (redis_Ping r (now w)) = ''PONG'' then [(Debug, ''redis is ready'')] else []) \<and>
   IsAlive e (s\<lparr>Redis := Some r\<rparr>) w =
     (case IsAlive e (s\<lparr>Redis := None\<rparr>) w of
        None \<Rightarrow> None
      | Some (up, w1) \<Rightarrow>
          Some (up \<and> fst (redis_Ping r (now w1)) = ''PONG'', snd (checkRedisAlive r w1))) \<and>
   (Ready e (s\<lparr>Redis := None\<rparr>) w = Some (Returns w1) \<and> isReady s = Some p \<longrightarrow>
      (\<exists>w2. Ready e (s\<lparr>Redis := Some r\<rparr>) w = Some (Returns w2) \<and>
        Load p w2 = Bool (Load p w1 = Bool True \<and> fst (redis_Ping r (now w1)) = ''PONG'')))"
  using checkRedisAlive_fst[of r w] checkRedisAlive_logs[of r w] IsAlive_Redis[of e r s w]
    Ready_Redis[of e s w w1 p r]
  by blast

lemma Ready_bare:
  "Ready e bare_Service world0 = Some (Returns (Store 0 (Bool True) world0))"
  by (simp add: Ready_unfold bare_Service_def grpc_condition_def db_condition_def
      redis_condition_def)

theorem cache_alive_iff_reply_is_PONG_witness:
  "fst (checkRedisAlive redis_pong_with_error world0) \<and>
   logs (snd (checkRedisAlive redis_pong_with_error world0)) =
     [(Debug, ''redis is not ready''), (Debug, ''redis is ready'')] \<and>
   (\<exists>w2. Ready env_refusing (bare_Service\<lparr>Redis := Some redis_pong_with_error\<rparr>) world0
           = Some (Returns w2) \<and> Load 0 w2 = Bool True)"
proof -
  note t = cache_alive_iff_reply_is_PONG
    [of redis_pong_with_error world0 env_refusing bare_Service "Store 0 (Bool True) world0" 0]
  have b: "Ready env_refusing (bare_Service\<lparr>Redis := None\<rparr>) world0
             = Some (Returns (Store 0 (Bool True) world0))"
    using Ready_bare[of env_refusing] by (simp add: bare_Service_def)
  have p: "isReady bare_Service = Some 0" by (simp add: bare_Service_def)
  have pong: "redis_Ping redis_pong_with_error (now world0) = (''PONG'', Some (ErrorString ''i/o timeout''))"
    by (simp add: redis_pong_with_error_def)
  have l: "logs world0 = []" by (simp add: world0_def)
  from t pong have 1: "fst (checkRedisAlive redis_pong_with_error world0)" by simp
  from t pong l have 2: "logs (snd (checkRedisAlive redis_pong_with_error world0)) =
     [(Debug, ''redis is not ready''), (Debug, ''redis is ready'')]" by simp
  from t b p obtain w2 where
    "Ready env_refusing (bare_Service\<lparr>Redis := Some redis_pong_with_error\<rparr>) world0 = Some (Returns w2)"
    "Load 0 w2 = Bool (Load 0 (Store 0 (Bool True) world0) = Bool True \<and>
        fst (redis_Ping redis_pong_with_error (now (Store 0 (Bool True) world0))) = ''PONG'')"
    by blast
  then have 3: "\<exists>w2. Ready env_refusing (bare_Service\<lparr>Redis := Some redis_pong_with_error\<rparr>) world0
           = Some (Returns w2) \<and> Load 0 w2 = Bool True"
    by (simp add: Load_Store redis_pong_with_error_def)
  from 1 2 3 show ?thesis by blast
qed

subsection \<open>Start and the signal trap\<close>

lemma Wait_signal:
  "trap = Trap (Some a) \<Longrightarrow> Done c = None \<or> (\<exists>d. Done c = Some d \<and> max t a < max t d) \<Longrightarrow>
   Wait trap c t pick = Some ErrTermSig"
  by (auto simp: Wait_def)

lemma Wait_done:
  "Done c = Some d \<Longrightarrow>
   trap = NilTrap \<or> trap = Trap None \<or> (\<exists>a. trap = Trap (Some a) \<and> max t d < max t a) \<Longrightarrow>
   Wait trap c t pick = Some (Err c)"
  by (auto simp: Wait_def)

lemma Wait_never:
  "trap = NilTrap \<or> trap = Trap None \<Longrightarrow> Done c = None \<Longrightarrow> Wait trap c t pick = None"
  by (auto simp: Wait_def)

lemma Start_result:
  "snd (Start s t pick w) =
     (case Wait (sigHandler s) (ctx s) t pick of
        None \<Rightarrow> None
      | Some err \<Rightarrow>
          if err = ErrTermSig then Some (None, logf Info ''termination signal received'' w)
          else Some (Some err, logf ErrorLevel ''failed to caught signal'' w))"
  by (simp add: Start_def GetContext_def errors_Is_def split: option.splits)

text \<open>
  C7. When the select of \<open>Wait\<close> is resolved by a signal on the trap, \<open>Wait\<close> returns the
  termination-signal error and \<open>Start\<close> returns nil. When it is resolved by the context,
  which was cancelled for a reason other than the termination signal, \<open>Wait\<close> and \<open>Start\<close>
  both return the error of the context. When neither ever happens, \<open>Start\<close> does not
  return. The termination-signal error is none of the cancellation errors.
\<close>

theorem Start_returns_nil_on_signal_and_error_on_cancellation:
  "(sigHandler s = Trap (Some a) \<and>
    (Done (ctx s) = None \<or> (\<exists>d. Done (ctx s) = Some d \<and> max t a < max t d)) \<longrightarrow>
      Wait (sigHandler s) (GetContext s) t pick = Some ErrTermSig \<and>
      snd (Start s t pick w) = Some (None, logf Info ''termination signal received'' w)) \<and>
   (Done (ctx s) = Some d \<and> Err (ctx s) \<noteq> ErrTermSig \<and>
    (sigHandler s = NilTrap \<or> sigHandler s = Trap None \<or>
     (\<exists>a. sigHandler s = Trap (Some a) \<and> max t d < max t a)) \<longrightarrow>
      Wait (sigHandler s) (GetContext s) t pick = Some (Err (ctx s)) \<and>
      snd (Start s t pick w) =
        Some (Some (Err (ctx s)), logf ErrorLevel ''failed to caught signal'' w)) \<and>
   ((sigHandler s = NilTrap \<or> sigHandler s = Trap None) \<and> Done (ctx s) = None \<longrightarrow>
      snd (Start s t pick w) = None) \<and>
   ErrTermSig \<noteq> Canceled \<and> ErrTermSig \<noteq> DeadlineExceeded"
proof -
  have 1: "sigHandler s = Trap (Some a) \<and>
    (Done (ctx s) = None \<or> (\<exists>d. Done (ctx s) = Some d \<and> max t a < max t d)) \<longrightarrow>
      Wait (sigHandler s) (GetContext s) t pick = Some ErrTermSig \<and>
      snd (Start s t pick w) = Some (None, logf Info ''termination signal received'' w)"
    using Wait_signal[of "sigHandler s" a "ctx s" t pick]
    by (auto simp: Start_result GetContext_def)
  have 2: "Done (ctx s) = Some d \<and> Err (ctx s) \<noteq> ErrTermSig \<and>
    (sigHandler s = NilTrap \<or> sigHandler s = Trap None \<or>
     (\<exists>a. sigHandler s = Trap (Some a) \<and> max t d < max t a)) \<longrightarrow>
      Wait (sigHandler s) (GetContext s) t pick = Some (Err (ctx s)) \<and>
      snd (Start s t pick w) =
        Some (Some (Err (ctx s)), logf ErrorLevel ''failed to caught signal'' w)"
    using Wait_done[of "ctx s" d "sigHandler s" t pick]
    by (auto simp: Start_result GetContext_def)
  have 3: "(sigHandler s = NilTrap \<or> sigHandler s = Trap None) \<and> Done (ctx s) = None \<longrightarrow>
      snd (Start s t pick w) = None"
    using Wait_never[of "sigHandler s" "ctx s" t pick]
    by (auto simp: Start_result)
  from 1 2 3 show ?thesis by simp
qed

theorem Start_returns_nil_on_signal_and_error_on_cancellation_witness:
  "snd (Start (example_Service\<lparr>sigHandler := TermSignalTrap (Some 5)\<rparr>) 0 True world0)
     = Some (None, logf Info ''termination signal received'' world0) \<and>
   snd (Start (example_Service\<lparr>ctx := \<lparr>Done = Some 3, Err = Canceled\<rparr>\<rparr>) 0 True world0)
     = Some (Some Canceled, logf ErrorLevel ''failed to caught signal'' world0) \<and>
   snd (Start example_Service 0 True world0) = None"
  using Start_returns_nil_on_signal_and_error_on_cancellation
      [of "example_Service\<lparr>sigHandler := TermSignalTrap (Some 5)\<rparr>" 5 0 True world0 0]
    Start_returns_nil_on_signal_and_error_on_cancellation
      [of "example_Service\<lparr>ctx := \<lparr>Done = Some 3, Err = Canceled\<rparr>\<rparr>" 0 0 True world0 3]
    Start_returns_nil_on_signal_and_error_on_cancellation
      [of example_Service 0 0 True world0 0]
  by (simp add: example_Service_def TermSignalTrap_def Background_def)

text \<open>
  What \<open>New\<close> returns: the readiness flag is a fresh cell that holds false, and no signal
  trap is installed.
\<close>

lemma Apply_keeps_unexported:
  "isReady (fst (Apply opt s)) = isReady s \<and> sigHandler (fst (Apply opt s)) = sigHandler s"
  by (cases opt) (simp_all add: case_prod_beta)

lemma range_options_keeps_unexported:
  "range_options options s = Inr s' \<Longrightarrow> isReady s' = isReady s \<and> sigHandler s' = sigHandler s"
proof (induction options arbitrary: s)
  case Nil
  then show ?case by simp
next
  case (Cons opt options)
  obtain s1 err where a: "Apply opt s = (s1, err)" by (cases "Apply opt s")
  with Cons.prems have "err = None" and "range_options options s1 = Inr s'"
    by (auto split: option.splits)
  from Cons.IH[OF this(2)] Apply_keeps_unexported[of opt s] a show ?case by simp
qed

lemma New_result:
  "New c name options w = (Inr s, w') \<Longrightarrow>
   isReady s = Some (allocated w) \<and> sigHandler s = NilTrap \<and>
   w' = Store (allocated w) (Bool False) (w\<lparr>allocated := Suc (allocated w)\<rparr>)"
  using range_options_keeps_unexported
    [of options "\<lparr>Name = name, ctx = c, GRPCServers = [], HTTPServers = [], DB = None,
               Redis = None, isReady = Some (allocated w), SubServices = [], sigHandler = NilTrap\<rparr>" s]
  by (auto simp: New_def Let_def)

subsection \<open>The responses of the status endpoints\<close>

lemma decimal_503: "decimal 503 = ''503''"
  by (simp add: decimal.simps[of 503] decimal.simps[of 50] decimal.simps[of 5])

lemma json_Marshal_errorResponse:
  \<open>json_Marshal \<lparr>ErrorCode = code, ErrorDetails = ''error during request processing''\<rparr>
     = Inr (''{"ErrorCode":'' @ itoa code @ '',"ErrorDetails":"error during request processing"}'')\<close>
  by (simp add: json_Marshal_def json_string_def)

lemma AnswerWithJSONError_unwritten:
  assumes "status rw = None" and "\<not> broken rw"
  shows \<open>AnswerWithJSONError rw code =
           rw\<lparr>headers := (''Content-Type'', ''application/json'') #
                           filter (\<lambda>kv. fst kv \<noteq> ''Content-Type'') (headers rw),
              status := Some code,
              body := body rw @ ''{"ErrorCode":'' @ itoa code @
                      '',"ErrorDetails":"error during request processing"}''\<rparr>\<close>
  using assms
  by (simp add: AnswerWithJSONError_def json_Marshal_errorResponse Write_def WriteHeader_def
      Header_Set_def Let_def)

lemma AnswerWithJSONError_503:
  \<open>AnswerWithJSONError NewRecorder 503 =
     \<lparr>headers = [(''Content-Type'', ''application/json'')], status = Some 503,
      body = ''{"ErrorCode":503,"ErrorDetails":"error during request processing"}'',
      broken = False\<rparr>\<close>
  by (simp add: AnswerWithJSONError_unwritten NewRecorder_def itoa_def decimal_503)

lemma WriteHeader_200:
  "WriteHeader 200 NewRecorder = \<lparr>headers = [], status = Some 200, body = [], broken = False\<rparr>"
  by (simp add: WriteHeader_def NewRecorder_def)

text \<open>
  C8. \<open>AnswerWithJSONError\<close> writes the status code it is given on the status line and in
  the \<open>ErrorCode\<close> field of the JSON payload, with the details
  \<open>error during request processing\<close>. A liveness query with a checker that returns false
  and a readiness query on a flag that holds false answer 503 with that payload; a
  successful query answers 200 with an empty body.
\<close>

theorem failed_query_answers_503_with_JSON_payload:
  \<open>AnswerWithJSONError NewRecorder 503 =
     \<lparr>headers = [(''Content-Type'', ''application/json'')], status = Some 503,
      body = ''{"ErrorCode":503,"ErrorDetails":"error during request processing"}'',
      broken = False\<rparr> \<and>
   (status rw = None \<and> \<not> broken rw \<longrightarrow>
      status (AnswerWithJSONError rw code) = Some code \<and>
      body (AnswerWithJSONError rw code) =
        body rw @ ''{"ErrorCode":'' @ itoa code @ '',"ErrorDetails":"error during request processing"}'') \<and>
   alive [\<lambda>w. Some (False, w)] NewRecorder w = Some (AnswerWithJSONError NewRecorder 503, w) \<and>
   (c w = Some (False, w') \<longrightarrow> alive (c # cs) rw w = Some (AnswerWithJSONError rw 503, w')) \<and>
   (IsAlive e s w = Some (False, w') \<longrightarrow>
      ServeHTTP e s p HealthLive NewRecorder w = Some (Returns (AnswerWithJSONError NewRecorder 503, w'))) \<and>
   (IsAlive e s w = Some (True, w') \<longrightarrow>
      ServeHTTP e s p HealthLive NewRecorder w =
        Some (Returns (\<lparr>headers = [], status = Some 200, body = [], broken = False\<rparr>, w'))) \<and>
   (Load q w = Bool False \<longrightarrow>
      ready [Some q] NewRecorder w = Returns (AnswerWithJSONError NewRecorder 503)) \<and>
   (Load q w = Bool True \<longrightarrow>
      ready [Some q] NewRecorder w =
        Returns \<lparr>headers = [], status = Some 200, body = [], broken = False\<rparr>) \<and>
   alive [\<lambda>w. Some (True, w)] NewRecorder w =
     Some (\<lparr>headers = [], status = Some 200, body = [], broken = False\<rparr>, w)\<close>
  using AnswerWithJSONError_503 AnswerWithJSONError_unwritten[of rw code]
  by (simp add: WriteHeader_200)

theorem failed_query_answers_503_with_JSON_payload_witness:
  \<open>body (AnswerWithJSONError NewRecorder 503)
     = ''{"ErrorCode":503,"ErrorDetails":"error during request processing"}'' \<and>
   status (AnswerWithJSONError NewRecorder 503) = Some 503 \<and>
   alive [\<lambda>w. Some (False, w), \<lambda>w. Some (True, w)] NewRecorder world0
     = Some (AnswerWithJSONError NewRecorder 503, world0) \<and>
   ready [Some 0] NewRecorder (Store 0 (Bool False) world0)
     = Returns (AnswerWithJSONError NewRecorder 503) \<and>
   ready [Some 0] NewRecorder (Store 0 (Bool True) world0)
     = Returns \<lparr>headers = [], status = Some 200, body = [], broken = False\<rparr>\<close>
  using failed_query_answers_503_with_JSON_payload
      [of NewRecorder 503 world0 "\<lambda>w. Some (False, w)" world0 "[\<lambda>w. Some (True, w)]"
          env_refusing bare_Service None 0]
    failed_query_answers_503_with_JSON_payload
      [of NewRecorder 503 "Store 0 (Bool False) world0" "\<lambda>w. Some (False, w)" world0 "[]"
          env_refusing bare_Service None 0]
    failed_query_answers_503_with_JSON_payload
      [of NewRecorder 503 "Store 0 (Bool True) world0" "\<lambda>w. Some (False, w)" world0 "[]"
          env_refusing bare_Service None 0]
  by (simp add: Load_Store)

end
